theory Spec2Isabelle
  imports Main "HOL-Library.Word" "HOL-Library.Char_ord" "HOL-Library.List_Lexorder"
begin

section \<open>The network RPC calls of rpcnet.cpp\<close>

text \<open>
  A shallow embedding of the RPC handlers of \<^verbatim>\<open>src/rpcnet.cpp\<close>: \<^verbatim>\<open>ping\<close>,
  \<^verbatim>\<open>addnode\<close>, \<^verbatim>\<open>getaddednodeinfo\<close>, \<^verbatim>\<open>GetNetworksInfo\<close>,
  \<^verbatim>\<open>SingleAlertSubVersionsString\<close>, \<^verbatim>\<open>getnetworkinfo\<close> and \<^verbatim>\<open>sendalert\<close>.
  The process-wide globals the handlers read and write (\<^verbatim>\<open>vNodes\<close>, \<^verbatim>\<open>vAddedNodes\<close>,
  \<^verbatim>\<open>mapAlerts\<close>) are the fields of an explicit state record; every handler takes the state
  and returns its result together with the state it leaves behind. A C++ exception is the
  \<open>Inl\<close> branch of the result; the state returned with it is the state at the throw.
  Functions the handlers call but that live in other files (name lookup, the key class, the
  alert store, the transport) are the fields of an environment record.
\<close>

subsection \<open>JSON values and errors\<close>

text \<open>
  \<^verbatim>\<open>json_spirit::Value\<close>, without the real numbers (no handler modelled here builds one
  itself). An \<^verbatim>\<open>Object\<close> is a vector of name/value pairs, in the order of the
  \<^verbatim>\<open>push_back\<close> calls.
\<close>

datatype Value =
    Null
  | VStr string
  | VBool bool
  | VInt int
  | VArray "Value list"
  | VObject "(string \<times> Value) list"

text \<open>The two error codes of \<^verbatim>\<open>rpcprotocol.h\<close> that this file throws.\<close>

datatype RPCErrorCode = RPC_CLIENT_NODE_ALREADY_ADDED | RPC_CLIENT_NODE_NOT_ADDED

text \<open>
  What a handler can throw: the usage text (a \<^verbatim>\<open>runtime_error\<close> carrying the help
  message, kept here as the name of the call), a \<^verbatim>\<open>runtime_error\<close> with its message, the
  \<^verbatim>\<open>runtime_error\<close> of a json_spirit accessor applied to a value of another type, and a
  \<^verbatim>\<open>JSONRPCError\<close>.
\<close>

datatype rpc_error =
    HelpError string
  | RuntimeError string
  | TypeError
  | JSONRPCError RPCErrorCode string

definition get_str :: "Value \<Rightarrow> rpc_error + string" where
  "get_str v = (case v of VStr s \<Rightarrow> Inr s | _ \<Rightarrow> Inl TypeError)"

definition get_bool :: "Value \<Rightarrow> rpc_error + bool" where
  "get_bool v = (case v of VBool b \<Rightarrow> Inr b | _ \<Rightarrow> Inl TypeError)"

text \<open>\<^verbatim>\<open>get_int\<close> narrows the stored 64-bit integer to \<^verbatim>\<open>int\<close> (32 bits).\<close>

definition get_int :: "Value \<Rightarrow> rpc_error + int" where
  "get_int v = (case v of VInt i \<Rightarrow> Inr (sint (word_of_int i :: 32 word)) | _ \<Rightarrow> Inl TypeError)"

subsection \<open>Data model\<close>

text \<open>A \<^verbatim>\<open>CService\<close>: a 16-byte network address and a port; equality is fieldwise.\<close>

record CService =
  ip :: "8 word list"
  port :: "16 word"

text \<open>
  The members of \<^verbatim>\<open>CNode\<close> that this file reads or writes, and the traffic counters and
  time stamps next to them; the remaining members are the record's extension.
\<close>

record CNode =
  nodeid :: int
  addr :: CService
  fInbound :: bool
  fPingQueued :: bool
  nLastSend :: int
  nLastRecv :: int
  nSendBytes :: nat
  nRecvBytes :: nat

text \<open>
  A \<^verbatim>\<open>CAlert\<close>. \<^verbatim>\<open>setSubVer\<close> is a \<^verbatim>\<open>std::set<std::string>\<close>, kept as the list of
  its elements in iteration order (ascending, no duplicates).
\<close>

record CAlert =
  nVersion :: int
  nRelayUntil :: int
  nExpiration :: int
  nID :: int
  nCancel :: int
  nMinVer :: int
  nMaxVer :: int
  setSubVer :: "string list"
  nPriority :: int
  strStatusBar :: string
  vchMsg :: "8 word list"
  vchSig :: "8 word list"

text \<open>
  Modelled from the spec: the state of a \<^verbatim>\<open>CKey\<close> object (key.h, not in this repository
  part): a key is valid or not, and holds its secret bytes.
\<close>

record CKey =
  fValid :: bool
  secret :: "8 word list"

text \<open>
  The calls a handler hands to the other layers, in the order it makes them: a connection
  attempt, an alert given to the store, a relay of an alert to one peer (by node id).
\<close>

datatype call =
    CallConnectNode string
  | CallProcessAlert CAlert
  | CallRelayTo int CAlert

text \<open>
  The globals. \<^verbatim>\<open>vNodes\<close> and \<^verbatim>\<open>vAddedNodes\<close> are vectors; \<^verbatim>\<open>mapAlerts\<close> is a
  \<^verbatim>\<open>std::map\<close> from the alert's hash to the alert, kept as its entries in iteration order.
  \<open>calls\<close> records the calls made so far.
\<close>

record node_state =
  vNodes :: "CNode list"
  vAddedNodes :: "string list"
  mapAlerts :: "(nat \<times> CAlert) list"
  calls :: "call list"

text \<open>
  The collaborators. \<open>Lookup\<close> is \<^verbatim>\<open>Lookup(name, vserv, Params().GetDefaultPort(),
  fNameLookup, 0)\<close>: \<open>None\<close> when it returns false, otherwise the vector it fills.
  \<open>ConnectNode\<close> is the transport's effect on the live set. The networks of
  \<^verbatim>\<open>enum Network\<close> are numbered from 0 below \<open>NET_MAX\<close>; \<open>GetProxy n\<close> is the
  \<^verbatim>\<open>proxyType\<close> object after \<^verbatim>\<open>GetProxy(network, proxy)\<close>. \<open>CheckSecret\<close>,
  \<open>ImportPrivKey\<close> and \<open>EcdsaSign\<close> are the elliptic-curve primitives under
  \<^verbatim>\<open>CKey\<close>; \<open>ProcessAlert\<close> gives the store's verdict and the map it leaves;
  \<open>RelayTo\<close> is the effect of a relay on the peer.

  Modelled from the spec: \<open>GetPrivKey\<close> is \<^verbatim>\<open>CKey::GetPrivKey\<close> (key.cpp, not in this
  repository part) on a key object, whatever state \<^verbatim>\<open>Set\<close> left it in. An operation on
  corrupted key material aborts only the operation in progress, never the process: the call
  returns the private key or throws, and which of the two is left open.
\<close>

record env =
  Lookup :: "string \<Rightarrow> CService list option"
  ToString :: "CService \<Rightarrow> string"
  ConnectNode :: "string \<Rightarrow> CNode list \<Rightarrow> CNode list"
  NET_MAX :: nat
  NET_UNROUTABLE :: nat
  GetProxy :: "nat \<Rightarrow> CService"
  IsValid :: "CService \<Rightarrow> bool"
  ToStringIPPort :: "CService \<Rightarrow> string"
  GetNetworkName :: "nat \<Rightarrow> string"
  IsLimited :: "nat \<Rightarrow> bool"
  IsReachable :: "nat \<Rightarrow> bool"
  CLIENT_VERSION :: int
  FormatSubVersion :: string
  PROTOCOL_VERSION :: int
  nLocalServices :: string
  GetTimeOffset :: int
  relayfee :: Value
  mapLocalHost :: "(string \<times> int \<times> int) list"
  GetAdjustedTime :: int
  ParseHex :: "string \<Rightarrow> 8 word list"
  SerializeUnsigned :: "CAlert \<Rightarrow> 8 word list"
  Hash :: "8 word list \<Rightarrow> 8 word list"
  CheckSecret :: "8 word list \<Rightarrow> bool"
  ImportPrivKey :: "8 word list \<Rightarrow> 8 word list option"
  EcdsaSign :: "8 word list \<Rightarrow> 8 word list \<Rightarrow> 8 word list option"
  GetPrivKey :: "CKey \<Rightarrow> rpc_error + 8 word list"
  ProcessAlert :: "CAlert \<Rightarrow> (nat \<times> CAlert) list \<Rightarrow> bool \<times> (nat \<times> CAlert) list"
  RelayTo :: "CAlert \<Rightarrow> CNode \<Rightarrow> CNode"

subsection \<open>ping\<close>

text \<open>The loop \<^verbatim>\<open>BOOST_FOREACH(CNode* pNode, vNodes) pNode->fPingQueued = true;\<close>\<close>

fun ping_loop :: "CNode list \<Rightarrow> CNode list" where
  "ping_loop [] = []"
| "ping_loop (pNode # rest) = pNode\<lparr>fPingQueued := True\<rparr> # ping_loop rest"

definition ping :: "node_state \<Rightarrow> Value list \<Rightarrow> bool \<Rightarrow> (rpc_error + Value) \<times> node_state" where
  "ping st params fHelp =
     (if fHelp \<or> length params \<noteq> 0 then (Inl (HelpError ''ping''), st)
      else (Inr Null, st\<lparr>vNodes := ping_loop (vNodes st)\<rparr>))"

subsection \<open>addnode\<close>

text \<open>
  The search \<^verbatim>\<open>for(; it != vAddedNodes.end(); it++) if (strNode == *it) break;\<close>: the
  position of the first entry equal to \<open>strNode\<close>, and the length of the vector for
  \<^verbatim>\<open>end()\<close>.
\<close>

fun find_added :: "string list \<Rightarrow> string \<Rightarrow> nat" where
  "find_added [] strNode = 0"
| "find_added (x # xs) strNode = (if strNode = x then 0 else Suc (find_added xs strNode))"

text \<open>\<^verbatim>\<open>vector::erase(it)\<close> at a position inside the vector.\<close>

definition vector_erase :: "'a list \<Rightarrow> nat \<Rightarrow> 'a list" where
  "vector_erase xs i = take i xs @ drop (Suc i) xs"

definition addnode ::
  "env \<Rightarrow> node_state \<Rightarrow> Value list \<Rightarrow> bool \<Rightarrow> (rpc_error + Value) \<times> node_state" where
  "addnode e st params fHelp =
     (case (if length params = 2 then get_str (params ! 1) else Inr []) of
        Inl err \<Rightarrow> (Inl err, st)
      | Inr strCommand \<Rightarrow>
          if fHelp \<or> length params \<noteq> 2 \<or>
             (strCommand \<noteq> ''onetry'' \<and> strCommand \<noteq> ''add'' \<and> strCommand \<noteq> ''remove'')
          then (Inl (HelpError ''addnode''), st)
          else
            (case get_str (params ! 0) of
               Inl err \<Rightarrow> (Inl err, st)
             | Inr strNode \<Rightarrow>
                 if strCommand = ''onetry''
                 then (Inr Null,
                       st\<lparr>vNodes := ConnectNode e strNode (vNodes st),
                          calls := calls st @ [CallConnectNode strNode]\<rparr>)
                 else
                   (let it = find_added (vAddedNodes st) strNode in
                    if strCommand = ''add'' then
                      (if it \<noteq> length (vAddedNodes st)
                       then (Inl (JSONRPCError RPC_CLIENT_NODE_ALREADY_ADDED
                                    ''Error: Node already added''), st)
                       else (Inr Null, st\<lparr>vAddedNodes := vAddedNodes st @ [strNode]\<rparr>))
                    else if strCommand = ''remove'' then
                      (if it = length (vAddedNodes st)
                       then (Inl (JSONRPCError RPC_CLIENT_NODE_NOT_ADDED
                                    ''Error: Node has not been added.''), st)
                       else (Inr Null, st\<lparr>vAddedNodes := vector_erase (vAddedNodes st) it\<rparr>))
                    else (Inr Null, st))))"

subsection \<open>getaddednodeinfo\<close>

text \<open>
  With one parameter every added node is selected; with two, the first entry equal to
  the given name (the loop breaks there), and the call throws when there is none.
\<close>

fun first_equal :: "string list \<Rightarrow> string \<Rightarrow> string list" where
  "first_equal [] strNode = []"
| "first_equal (strAddNode # rest) strNode =
     (if strAddNode = strNode then [strAddNode] else first_equal rest strNode)"

definition select_added :: "string list \<Rightarrow> Value list \<Rightarrow> rpc_error + string list" where
  "select_added added params =
     (if length params = 1 then Inr added
      else
        (case get_str (params ! 1) of
           Inl err \<Rightarrow> Inl err
         | Inr strNode \<Rightarrow>
             (let laddedNodes = first_equal added strNode in
              if length laddedNodes = 0
              then Inl (JSONRPCError RPC_CLIENT_NODE_NOT_ADDED ''Error: Node has not been added.'')
              else Inr laddedNodes)))"

text \<open>The listing without name lookup: one object per selected node, holding its name.\<close>

fun bare_entries :: "string list \<Rightarrow> Value list" where
  "bare_entries [] = []"
| "bare_entries (strAddNode # rest) =
     VObject [(''addednode'', VStr strAddNode)] # bare_entries rest"

text \<open>
  The lookup loop. A name that resolves is appended to \<^verbatim>\<open>laddedAddreses\<close> with its
  addresses. For a name that does not resolve the source builds an object (name, connected
  false, no addresses) in the \<^verbatim>\<open>else\<close> block and leaves the block without appending it to
  \<^verbatim>\<open>ret\<close> or to anything else.
\<close>

fun lookup_added :: "env \<Rightarrow> string list \<Rightarrow> (string \<times> CService list) list" where
  "lookup_added e [] = []"
| "lookup_added e (strAddNode # rest) =
     (case Lookup e strAddNode of
        Some vservNode \<Rightarrow> (strAddNode, vservNode) # lookup_added e rest
      | None \<Rightarrow>
          (let obj = [(''addednode'', VStr strAddNode), (''connected'', VBool False),
                      (''addresses'', VArray [])]
           in lookup_added e rest))"

text \<open>
  The inner loop over \<^verbatim>\<open>vNodes\<close> for one candidate address: the first peer whose
  \<^verbatim>\<open>addr\<close> equals it, if any.
\<close>

fun find_peer :: "CNode list \<Rightarrow> CService \<Rightarrow> CNode option" where
  "find_peer [] addrNode = None"
| "find_peer (pnode # rest) addrNode =
     (if addr pnode = addrNode then Some pnode else find_peer rest addrNode)"

text \<open>
  The loop over the addresses of one name: the entries appended to \<^verbatim>\<open>addresses\<close>,
  and \<^verbatim>\<open>fConnected\<close>, which starts false and is set when a peer is found.
\<close>

fun address_entries :: "env \<Rightarrow> CNode list \<Rightarrow> CService list \<Rightarrow> bool \<Rightarrow> Value list \<times> bool" where
  "address_entries e nodes [] fConnected = ([], fConnected)"
| "address_entries e nodes (addrNode # rest) fConnected =
     (case find_peer nodes addrNode of
        Some pnode \<Rightarrow>
          (let (addresses, fc) = address_entries e nodes rest True in
           (VObject [(''address'', VStr (ToString e addrNode)),
                     (''connected'', VStr (if fInbound pnode then ''inbound'' else ''outbound''))]
              # addresses, fc))
      | None \<Rightarrow>
          (let (addresses, fc) = address_entries e nodes rest fConnected in
           (VObject [(''address'', VStr (ToString e addrNode)),
                     (''connected'', VStr ''false'')]
              # addresses, fc)))"

fun resolved_entries :: "env \<Rightarrow> CNode list \<Rightarrow> (string \<times> CService list) list \<Rightarrow> Value list" where
  "resolved_entries e nodes [] = []"
| "resolved_entries e nodes ((name, vserv) # rest) =
     (let (addresses, fConnected) = address_entries e nodes vserv False in
      VObject [(''addednode'', VStr name), (''connected'', VBool fConnected),
               (''addresses'', VArray addresses)]
        # resolved_entries e nodes rest)"

definition getaddednodeinfo ::
  "env \<Rightarrow> node_state \<Rightarrow> Value list \<Rightarrow> bool \<Rightarrow> (rpc_error + Value) \<times> node_state" where
  "getaddednodeinfo e st params fHelp =
     (if fHelp \<or> length params < 1 \<or> length params > 2
      then (Inl (HelpError ''getaddednodeinfo''), st)
      else
        (case get_bool (params ! 0) of
           Inl err \<Rightarrow> (Inl err, st)
         | Inr fDns \<Rightarrow>
             (case select_added (vAddedNodes st) params of
                Inl err \<Rightarrow> (Inl err, st)
              | Inr laddedNodes \<Rightarrow>
                  if \<not> fDns then (Inr (VArray (bare_entries laddedNodes)), st)
                  else
                    (let laddedAddreses = lookup_added e laddedNodes in
                     (Inr (VArray (resolved_entries e (vNodes st) laddedAddreses)), st)))))"

subsection \<open>GetNetworksInfo\<close>

text \<open>One object of the network description.\<close>

definition network_entry :: "env \<Rightarrow> nat \<Rightarrow> Value" where
  "network_entry e n =
     (let proxy = GetProxy e n in
      VObject [(''name'', VStr (GetNetworkName e n)),
               (''limited'', VBool (IsLimited e n)),
               (''reachable'', VBool (IsReachable e n)),
               (''proxy'', VStr (if IsValid e proxy then ToStringIPPort e proxy else []))])"

text \<open>
  The loop \<^verbatim>\<open>for(int n=0; n<NET_MAX; ++n)\<close>, from the counter \<open>n\<close> on, with the array
  built so far; \<^verbatim>\<open>continue\<close> skips \<open>NET_UNROUTABLE\<close>.
\<close>

function networks_loop :: "env \<Rightarrow> nat \<Rightarrow> Value list \<Rightarrow> Value list" where
  "networks_loop e n networks =
     (if n < NET_MAX e then
        (if n = NET_UNROUTABLE e then networks_loop e (Suc n) networks
         else networks_loop e (Suc n) (networks @ [network_entry e n]))
      else networks)"
  by pat_completeness auto
termination
  by (relation "measure (\<lambda>(e, n, networks). NET_MAX e - n)") auto

declare networks_loop.simps [simp del]

definition GetNetworksInfo :: "env \<Rightarrow> Value list" where
  "GetNetworksInfo e = networks_loop e 0 []"

subsection \<open>SingleAlertSubVersionsString\<close>

text \<open>
  The loop over the set in iteration order, with the string built so far: the separator
  is appended when that string is not empty.
\<close>

fun subvers_join :: "string list \<Rightarrow> string \<Rightarrow> string" where
  "subvers_join [] strSetSubVer = strSetSubVer"
| "subvers_join (str # rest) strSetSubVer =
     subvers_join rest
       ((if length strSetSubVer \<noteq> 0 then strSetSubVer @ '' or '' else strSetSubVer) @ str)"

definition SingleAlertSubVersionsString :: "string list \<Rightarrow> string" where
  "SingleAlertSubVersionsString setVersions = subvers_join setVersions []"

subsection \<open>getnetworkinfo\<close>

text \<open>\<^verbatim>\<open>(int)vNodes.size()\<close>: the size narrowed to 32 bits.\<close>

definition to_int32 :: "nat \<Rightarrow> int" where
  "to_int32 n = sint (word_of_int (int n) :: 32 word)"

fun local_addresses :: "(string \<times> int \<times> int) list \<Rightarrow> Value list" where
  "local_addresses [] = []"
| "local_addresses ((address, nPort, nScore) # rest) =
     VObject [(''address'', VStr address), (''port'', VInt nPort), (''score'', VInt nScore)]
       # local_addresses rest"

definition alert_record :: "CAlert \<Rightarrow> Value" where
  "alert_record alert =
     VObject [(''AlertID'', VInt (nID alert)),
              (''Priority'', VInt (nPriority alert)),
              (''MinVer'', VInt (nMinVer alert)),
              (''MaxVer'', VInt (nMaxVer alert)),
              (''SubVer'', VStr (SingleAlertSubVersionsString (setSubVer alert))),
              (''RelayUntil'', VInt (nRelayUntil alert)),
              (''Expiration'', VInt (nExpiration alert)),
              (''StatusBar'', VStr (strStatusBar alert))]"

text \<open>
  The loop over \<^verbatim>\<open>mapAlerts\<close> from \<^verbatim>\<open>begin()\<close> to \<^verbatim>\<open>end()\<close>; an empty map gives the
  empty array with or without the test \<^verbatim>\<open>!mapAlerts.empty()\<close> around the loop.
\<close>

fun local_alerts :: "(nat \<times> CAlert) list \<Rightarrow> Value list" where
  "local_alerts [] = []"
| "local_alerts (mi # rest) = alert_record (snd mi) # local_alerts rest"

text \<open>
  \<open>nLocalServices e\<close> is the service mask already printed with \<^verbatim>\<open>%08x\<close>,
  \<open>FormatSubVersion e\<close> the client's own subversion string, \<open>relayfee e\<close> the value
  \<^verbatim>\<open>ValueFromAmount(CTransaction::nMinRelayTxFee)\<close>, and \<open>mapLocalHost e\<close> the local
  addresses as (printed address, port, score).
\<close>

definition getnetworkinfo ::
  "env \<Rightarrow> node_state \<Rightarrow> Value list \<Rightarrow> bool \<Rightarrow> (rpc_error + Value) \<times> node_state" where
  "getnetworkinfo e st params fHelp =
     (if fHelp \<or> length params \<noteq> 0 then (Inl (HelpError ''getnetworkinfo''), st)
      else
        (Inr (VObject
           [(''version'', VInt (CLIENT_VERSION e)),
            (''subversion'', VStr (FormatSubVersion e)),
            (''protocolversion'', VInt (PROTOCOL_VERSION e)),
            (''localservices'', VStr (nLocalServices e)),
            (''timeoffset'', VInt (GetTimeOffset e)),
            (''connections'', VInt (to_int32 (length (vNodes st)))),
            (''relayfee'', relayfee e),
            (''networkconnections'', VArray (GetNetworksInfo e)),
            (''localaddresses'', VArray (local_addresses (mapLocalHost e))),
            (''alerts'', VArray (local_alerts (mapAlerts st)))]), st))"

text \<open>Reading a member of an object by name: the first pair with that name.\<close>

fun obj_member :: "string \<Rightarrow> Value \<Rightarrow> Value option" where
  "obj_member name (VObject pairs) = map_of pairs name"
| "obj_member name _ = None"

subsection \<open>sendalert\<close>

text \<open>\<^verbatim>\<open>std::string::find(ch, pos)\<close>: the first position from \<open>pos\<close> on that holds
  \<open>ch\<close>; \<open>None\<close> is \<^verbatim>\<open>npos\<close>.\<close>

function find_char :: "string \<Rightarrow> char \<Rightarrow> nat \<Rightarrow> nat option" where
  "find_char s ch pos =
     (if pos < length s then (if s ! pos = ch then Some pos else find_char s ch (Suc pos))
      else None)"
  by pat_completeness auto
termination
  by (relation "measure (\<lambda>(s, ch, pos). length s - pos)") auto

declare find_char.simps [simp del]

text \<open>\<^verbatim>\<open>std::string::substr(pos, n)\<close> for \<open>pos\<close> up to the size of the string (the only
  calls made here: \<open>pos\<close> is below a position that \<^verbatim>\<open>find\<close> returned).\<close>

definition substr :: "string \<Rightarrow> nat \<Rightarrow> nat \<Rightarrow> string" where
  "substr s pos n = take n (drop pos s)"

text \<open>\<^verbatim>\<open>std::set<std::string>::insert\<close> on the list of elements in ascending order.\<close>

definition set_insert :: "string \<Rightarrow> string list \<Rightarrow> string list" where
  "set_insert x xs = (if x \<in> set xs then xs else insort x xs)"

text \<open>
  The loop
  \<^verbatim>\<open>while( ( iLast = s.find('/',iPos--) ) != npos ) { insert(s.substr(iPos,++iLast-iPos)); iPos = iLast; }\<close>
  at its head, with the value of \<open>iPos\<close> there and the set built so far. \<^verbatim>\<open>find\<close> searches
  from \<open>iPos\<close>, which is then decremented; \<open>iLast\<close> is incremented before the length
  \<open>iLast - iPos\<close> is taken. \<open>iPos\<close> is 1 at the first test and above a found position at
  every later one, so the unsigned decrement does not wrap.
\<close>

function subver_loop :: "string \<Rightarrow> nat \<Rightarrow> string list \<Rightarrow> string list" where
  "subver_loop s iPos subvers =
     (case find_char s CHR ''/'' iPos of
        None \<Rightarrow> subvers
      | Some found \<Rightarrow>
          (let iPos' = iPos - 1;
               iLast = Suc found
           in subver_loop s iLast (set_insert (substr s iPos' (iLast - iPos')) subvers)))"
  by pat_completeness auto
termination
proof (relation "measure (\<lambda>(s, iPos, subvers). length s - iPos)")
  show "wf (measure (\<lambda>(s, iPos, subvers). length s - iPos))" by simp
next
  fix s :: string and iPos :: nat and subvers :: "string list" and found x xa
  assume f: "find_char s CHR ''/'' iPos = Some found" and xa: "xa = Suc found"
  have bound: "find_char t ch p = Some i \<Longrightarrow> p \<le> i \<and> i < length t" for t ch p i
  proof (induction t ch p rule: find_char.induct)
    case (1 t ch pos)
    then show ?case
      by (cases "pos < length t"; cases "t ! pos = ch")
         (auto simp add: find_char.simps [of t ch pos])
  qed
  from bound [OF f] have "iPos \<le> found" "found < length s" by simp_all
  then show "((s, xa, set_insert (substr s x (xa - x)) subvers), s, iPos, subvers)
       \<in> measure (\<lambda>(s, iPos, subvers). length s - iPos)"
    using xa by simp
qed

declare subver_loop.simps [simp del]

text \<open>
  The check of the subversion parameter and the loop: an empty string leaves the set
  empty; a string that does not begin and end with a slash is refused.
\<close>

definition parse_subvers :: "string \<Rightarrow> rpc_error + string list" where
  "parse_subvers strSetSubVers =
     (if length strSetSubVers \<noteq> 0 then
        (if strSetSubVers ! 0 = CHR ''/'' \<and> strSetSubVers ! (length strSetSubVers - 1) = CHR ''/''
         then Inr (subver_loop strSetSubVers 1 [])
         else Inl (RuntimeError
                (''Invalid client subversion(s) string, see BIP14 for specifications'' @ [CHR 0x0A])))
      else Inr [])"

text \<open>A default-constructed alert (\<^verbatim>\<open>SetNull\<close>): version 1, every other number 0,
  every string, set and vector empty.\<close>

definition CAlert_null :: CAlert where
  "CAlert_null =
     \<lparr>nVersion = 1, nRelayUntil = 0, nExpiration = 0, nID = 0, nCancel = 0, nMinVer = 0,
      nMaxVer = 0, setSubVer = [], nPriority = 0, strStatusBar = [], vchMsg = [], vchSig = []\<rparr>"

text \<open>Sequencing of steps that may throw.\<close>

definition bind_err :: "rpc_error + 'a \<Rightarrow> ('a \<Rightarrow> rpc_error + 'b) \<Rightarrow> rpc_error + 'b" where
  "bind_err m f = (case m of Inl err \<Rightarrow> Inl err | Inr x \<Rightarrow> f x)"

text \<open>Arithmetic on \<^verbatim>\<open>int64_t\<close>: the result in two's complement on 64 bits.\<close>

definition wrap64 :: "int \<Rightarrow> int" where
  "wrap64 x = sint (word_of_int x :: 64 word)"

text \<open>
  The first part of \<^verbatim>\<open>sendalert\<close>: the alert filled from the parameters, in the order
  the source reads them, up to the serialised message \<^verbatim>\<open>vchMsg\<close>.
\<close>

definition build_alert :: "env \<Rightarrow> Value list \<Rightarrow> rpc_error + CAlert" where
  "build_alert e params =
     bind_err (get_str (params ! 0)) (\<lambda>status.
     bind_err (get_int (params ! 2)) (\<lambda>minver.
     bind_err (get_int (params ! 3)) (\<lambda>maxver.
     bind_err (get_str (params ! 4)) (\<lambda>strSetSubVers.
     bind_err (parse_subvers strSetSubVers) (\<lambda>subvers.
     bind_err (get_int (params ! 5)) (\<lambda>priority.
     bind_err (get_int (params ! 6)) (\<lambda>alertid.
     bind_err (if length params > 9 then get_int (params ! 9) else Inr (nCancel CAlert_null))
       (\<lambda>cancel.
     bind_err (if length params > 7 then get_int (params ! 7) else Inr 365) (\<lambda>relaydays.
     bind_err (if length params > 8 then get_int (params ! 8) else Inr 365) (\<lambda>expiredays.
       (let i64AlertNow = GetAdjustedTime e;
            alert = CAlert_null
              \<lparr>strStatusBar := status, nMinVer := minver, nMaxVer := maxver,
               setSubVer := subvers, nPriority := priority, nID := alertid,
               nCancel := cancel, nVersion := PROTOCOL_VERSION e,
               nRelayUntil := wrap64 (wrap64 (relaydays * (24 * 60 * 60)) + i64AlertNow),
               nExpiration := wrap64 (wrap64 (expiredays * (24 * 60 * 60)) + i64AlertNow)\<rparr>
        in Inr (alert\<lparr>vchMsg := SerializeUnsigned e alert\<rparr>))))))))))))"

text \<open>
  Modelled from the spec: the methods of the class \<^verbatim>\<open>CKey\<close> (key.h, key.cpp), of which
  this repository part holds only the calls. \<^verbatim>\<open>Set\<close> on 32 bytes makes the key valid when
  the bytes are a valid secret, \<^verbatim>\<open>SetPrivKey\<close> returns false when the bytes are not an
  importable private key, and \<^verbatim>\<open>Sign\<close> fails closed: on a key that is not valid it
  returns false and produces no signature.
\<close>

definition CKey_Set :: "env \<Rightarrow> 8 word list \<Rightarrow> CKey" where
  "CKey_Set e vch = \<lparr>fValid = CheckSecret e vch, secret = vch\<rparr>"

definition CKey_SetPrivKey :: "env \<Rightarrow> 8 word list \<Rightarrow> CKey option" where
  "CKey_SetPrivKey e vchPrivKey =
     (case ImportPrivKey e vchPrivKey of
        None \<Rightarrow> None
      | Some sec \<Rightarrow> Some \<lparr>fValid = True, secret = sec\<rparr>)"

definition CKey_Sign :: "env \<Rightarrow> CKey \<Rightarrow> 8 word list \<Rightarrow> 8 word list option" where
  "CKey_Sign e key hash = (if \<not> fValid key then None else EcdsaSign e (secret key) hash)"

text \<open>
  Modelled from the spec: key material is valid signing key material when it is a valid
  32-byte secret or, at any other length, an importable private key.
\<close>

definition valid_key_material :: "env \<Rightarrow> 8 word list \<Rightarrow> bool" where
  "valid_key_material e vch =
     (if length vch = 32 then CheckSecret e vch else ImportPrivKey e vch \<noteq> None)"

text \<open>
  The key object after the two branches on the length of the parameter. On 32 bytes the
  source sets the key, then calls \<^verbatim>\<open>key.GetPrivKey()\<close> and prints the bytes it returns to
  the log; what that call throws leaves \<^verbatim>\<open>sendalert\<close>. On any other length
  \<^verbatim>\<open>SetPrivKey\<close> is called, and the source throws when it returns false. (The log is not
  part of the state.)
\<close>

definition load_key :: "env \<Rightarrow> 8 word list \<Rightarrow> rpc_error + CKey" where
  "load_key e vchPrivKey =
     (if length vchPrivKey = 32 then
        (let key = CKey_Set e vchPrivKey in
         case GetPrivKey e key of
           Inl err \<Rightarrow> Inl err
         | Inr nPK \<Rightarrow> Inr key)
      else
        (case CKey_SetPrivKey e vchPrivKey of
           None \<Rightarrow> Inl (RuntimeError
                     (''Unable to verify alert Private key, check private key?'' @ [CHR 0x0A]))
         | Some key \<Rightarrow> Inr key))"

text \<open>The loop \<^verbatim>\<open>BOOST_FOREACH(CNode* pnode, vNodes) alert.RelayTo(pnode);\<close>: the peers
  after it and the relay calls it makes.\<close>

fun relay_loop :: "env \<Rightarrow> CAlert \<Rightarrow> CNode list \<Rightarrow> CNode list \<times> call list" where
  "relay_loop e alert [] = ([], [])"
| "relay_loop e alert (pnode # rest) =
     (let (nodes, relays) = relay_loop e alert rest in
      (RelayTo e alert pnode # nodes, CallRelayTo (nodeid pnode) alert # relays))"

definition alert_result :: "CAlert \<Rightarrow> Value" where
  "alert_result alert =
     VObject
       ([(''AlertID'', VInt (nID alert)),
         (''Priority'', VInt (nPriority alert)),
         (''Version'', VInt (nVersion alert)),
         (''MinVer'', VInt (nMinVer alert)),
         (''MaxVer'', VInt (nMaxVer alert)),
         (''SubVer'', VStr (SingleAlertSubVersionsString (setSubVer alert))),
         (''RelayUntil'', VInt (nRelayUntil alert)),
         (''Expiration'', VInt (nExpiration alert)),
         (''StatusBar'', VStr (strStatusBar alert))]
        @ (if nCancel alert > 0 then [(''Cancel'', VInt (nCancel alert))] else []))"

text \<open>\<^verbatim>\<open>sendalert\<close> (built only when \<^verbatim>\<open>CLIENT_VERSION_IS_RELEASE\<close> is not true).\<close>

definition sendalert ::
  "env \<Rightarrow> node_state \<Rightarrow> Value list \<Rightarrow> bool \<Rightarrow> (rpc_error + Value) \<times> node_state" where
  "sendalert e st params fHelp =
     (if fHelp \<or> length params < 7 then (Inl (HelpError ''sendalert''), st)
      else
        (case build_alert e params of
           Inl err \<Rightarrow> (Inl err, st)
         | Inr unsignedAlert \<Rightarrow>
             (case get_str (params ! 1) of
                Inl err \<Rightarrow> (Inl err, st)
              | Inr hex \<Rightarrow>
                  (case load_key e (ParseHex e hex) of
                     Inl err \<Rightarrow> (Inl err, st)
                   | Inr key \<Rightarrow>
                       (case CKey_Sign e key (Hash e (vchMsg unsignedAlert)) of
                          None \<Rightarrow>
                            (Inl (RuntimeError
                               (''Unable to sign alert, check private key?'' @ [CHR 0x0A])), st)
                        | Some sig \<Rightarrow>
                            (let alert = unsignedAlert\<lparr>vchSig := sig\<rparr>;
                                 (accepted, alerts) = ProcessAlert e alert (mapAlerts st);
                                 st1 = st\<lparr>mapAlerts := alerts,
                                          calls := calls st @ [CallProcessAlert alert]\<rparr>
                             in if \<not> accepted
                                then (Inl (RuntimeError (''Failed to process alert.'' @ [CHR 0x0A])),
                                      st1)
                                else
                                  (let (nodes, relays) = relay_loop e alert (vNodes st1) in
                                   (Inr (alert_result alert),
                                    st1\<lparr>vNodes := nodes, calls := calls st1 @ relays\<rparr>))))))))"

text \<open>Whether a recorded call is a relay.\<close>

fun is_relay :: "call \<Rightarrow> bool" where
  "is_relay (CallRelayTo n alert) = True"
| "is_relay _ = False"

subsection \<open>Reading a listing\<close>

text \<open>The names a listing of \<^verbatim>\<open>getaddednodeinfo\<close> shows: the \<^verbatim>\<open>addednode\<close> member of
  each object of the returned array, in order; a call that throws lists nothing.\<close>

fun entry_name :: "Value \<Rightarrow> string list" where
  "entry_name (VObject pairs) =
     (case map_of pairs ''addednode'' of Some (VStr name) \<Rightarrow> [name] | _ \<Rightarrow> [])"
| "entry_name _ = []"

definition listed_names :: "Value \<Rightarrow> string list" where
  "listed_names v = (case v of VArray entries \<Rightarrow> concat (map entry_name entries) | _ \<Rightarrow> [])"

definition listed :: "(rpc_error + Value) \<times> node_state \<Rightarrow> string list" where
  "listed r = (case fst r of Inr v \<Rightarrow> listed_names v | Inl err \<Rightarrow> [])"

text \<open>What the \<^verbatim>\<open>connected\<close> member of a candidate address says, in the words of the
  interface: it is \<^verbatim>\<open>false\<close> exactly when no live peer has that address, and otherwise
  it is the direction of the first live peer with that address.\<close>

definition candidate_report :: "CNode list \<Rightarrow> CService \<Rightarrow> string \<Rightarrow> bool" where
  "candidate_report nodes a c \<longleftrightarrow>
     (c = ''false'' \<longleftrightarrow> \<not> (\<exists>p\<in>set nodes. addr p = a))
   \<and> (c \<noteq> ''false'' \<longrightarrow>
        (\<exists>i<length nodes. addr (nodes ! i) = a \<and> (\<forall>j<i. addr (nodes ! j) \<noteq> a)
           \<and> c = (if fInbound (nodes ! i) then ''inbound'' else ''outbound'')))"

text \<open>What a listing with name lookup says about the selected names: one entry for each
  selected name that resolved, in order, with the name, whether some candidate address of it
  is the address of a live peer, and one object per candidate address, in order, holding the
  printed address and its \<^verbatim>\<open>connected\<close> member.\<close>

definition dns_report :: "env \<Rightarrow> CNode list \<Rightarrow> string list \<Rightarrow> Value list \<Rightarrow> bool" where
  "dns_report e nodes selected entries \<longleftrightarrow>
     length entries = length (lookup_added e selected)
   \<and> (\<forall>k < length entries.
        \<exists>ents.
          entries ! k =
            VObject [(''addednode'', VStr (fst (lookup_added e selected ! k))),
                     (''connected'',
                      VBool (\<exists>a\<in>set (snd (lookup_added e selected ! k)).
                               \<exists>p\<in>set nodes. addr p = a)),
                     (''addresses'', VArray ents)]
        \<and> length ents = length (snd (lookup_added e selected ! k))
        \<and> (\<forall>i < length ents.
             \<exists>c. ents ! i =
                    VObject [(''address'',
                              VStr (ToString e (snd (lookup_added e selected ! k) ! i))),
                             (''connected'', VStr c)]
                \<and> candidate_report nodes (snd (lookup_added e selected ! k) ! i) c))"

text \<open>A member of the object a call returns; nothing when the call throws.\<close>

definition result_member :: "string \<Rightarrow> (rpc_error + Value) \<times> node_state \<Rightarrow> Value option" where
  "result_member name r = (case fst r of Inr v \<Rightarrow> obj_member name v | Inl err \<Rightarrow> None)"

text \<open>The elements of a list joined by the separator \<^verbatim>\<open> or \<close>, as the interface
  describes the rendering of a subversion set: nothing for no element, the element itself
  for one, and one separator between each two neighbours.\<close>

fun join_or :: "string list \<Rightarrow> string" where
  "join_or [] = []"
| "join_or [x] = x"
| "join_or (x # y # ys) = x @ '' or '' @ join_or (y # ys)"

text \<open>
  The subversion strings a parameter spells out, in the words of the interface: two
  positions of the string are consecutive delimiters when both hold a slash and no position
  between them does, and the elements are the substrings from one delimiter to the next,
  both slashes included.
\<close>

definition consecutive_slashes :: "string \<Rightarrow> nat \<Rightarrow> nat \<Rightarrow> bool" where
  "consecutive_slashes s p q \<longleftrightarrow>
     p < q \<and> q < length s \<and> s ! p = CHR ''/'' \<and> s ! q = CHR ''/''
   \<and> (\<forall>k\<in>{p<..<q}. s ! k \<noteq> CHR ''/'')"

definition delimited :: "string \<Rightarrow> string set" where
  "delimited s = {substr s p (Suc q - p) | p q. consecutive_slashes s p q}"

subsection \<open>A small node, for concrete runs\<close>

definition addr_a :: CService where
  "addr_a = \<lparr>ip = [10, 0, 0, 5], port = 9377\<rparr>"

definition addr_b :: CService where
  "addr_b = \<lparr>ip = [10, 0, 0, 7], port = 9377\<rparr>"

definition addr_c :: CService where
  "addr_c = \<lparr>ip = [10, 0, 0, 9], port = 9377\<rparr>"

definition peer_out :: CNode where
  "peer_out = \<lparr>nodeid = 1, addr = addr_a, fInbound = False, fPingQueued = False,
                nLastSend = 0, nLastRecv = 0, nSendBytes = 0, nRecvBytes = 0\<rparr>"

definition peer_in :: CNode where
  "peer_in = \<lparr>nodeid = 2, addr = addr_b, fInbound = True, fPingQueued = False,
               nLastSend = 0, nLastRecv = 0, nSendBytes = 0, nRecvBytes = 0\<rparr>"

definition old_alert :: CAlert where
  "old_alert = CAlert_null\<lparr>nID := 7, nPriority := 100, nMaxVer := 999999,
                 nRelayUntil := 100, nExpiration := 100, strStatusBar := ''upgrade required''\<rparr>"

definition example_env :: env where
  "example_env =
     \<lparr>Lookup = (\<lambda>name. if name = ''10.0.0.5'' then Some [addr_a]
                      else if name = ''multi.example'' then Some [addr_b, addr_c]
                      else None),
      ToString = (\<lambda>a. if a = addr_a then ''10.0.0.5:9377''
                      else if a = addr_b then ''10.0.0.7:9377'' else ''10.0.0.9:9377''),
      ConnectNode = (\<lambda>name nodes. nodes),
      NET_MAX = 5,
      NET_UNROUTABLE = 0,
      GetProxy = (\<lambda>n. if n = 3 then \<lparr>ip = [127, 0, 0, 1], port = 9050\<rparr>
                     else \<lparr>ip = [], port = 0\<rparr>),
      IsValid = (\<lambda>p. ip p \<noteq> []),
      ToStringIPPort = (\<lambda>p. ''127.0.0.1:9050''),
      GetNetworkName = (\<lambda>n. if n = 1 then ''ipv4'' else if n = 2 then ''ipv6''
                           else if n = 3 then ''tor'' else if n = 4 then ''i2p'' else []),
      IsLimited = (\<lambda>n. n = 4),
      IsReachable = (\<lambda>n. n \<noteq> 4),
      CLIENT_VERSION = 90400,
      FormatSubVersion = ''/Anoncoin:0.9.4/'',
      PROTOCOL_VERSION = 70009,
      nLocalServices = ''00000001'',
      GetTimeOffset = 0,
      relayfee = VInt 0,
      mapLocalHost = [],
      GetAdjustedTime = 200,
      ParseHex = (\<lambda>hex. replicate (length hex div 2)
                               (if set hex \<subseteq> {CHR ''0''} then 0 else 1)),
      SerializeUnsigned = (\<lambda>alert. []),
      Hash = (\<lambda>msg. msg),
      CheckSecret = (\<lambda>vch. vch \<noteq> replicate 32 0),
      ImportPrivKey = (\<lambda>vch. None),
      EcdsaSign = (\<lambda>sec hash. Some [48]),
      GetPrivKey = (\<lambda>key. Inr (secret key)),
      ProcessAlert = (\<lambda>alert alerts. (True, alerts @ [(0, alert)])),
      RelayTo = (\<lambda>alert node. node)\<rparr>"

definition example_state :: node_state where
  "example_state =
     \<lparr>vNodes = [peer_out, peer_in],
      vAddedNodes = [''unresolved.example'', ''10.0.0.5''],
      mapAlerts = [(1, old_alert)],
      calls = []\<rparr>"

section \<open>Properties\<close>

subsection \<open>ping\<close>

lemma ping_loop_length: "length (ping_loop nodes) = length nodes"
  by (induction nodes) simp_all

lemma ping_loop_nth: "i < length nodes \<Longrightarrow> ping_loop nodes ! i = (nodes ! i)\<lparr>fPingQueued := True\<rparr>"
proof (induction nodes arbitrary: i)
  case Nil
  then show ?case by simp
next
  case (Cons n ns)
  then show ?case by (cases i) simp_all
qed

text \<open>
  C7. The ping call sets the pending-ping flag of every peer of the live set and changes
  nothing else: each peer is its old record with \<open>fPingQueued\<close> set, the live set has the
  peers it had, in their places, the added-node list, the alerts and the record of calls
  handed to other layers (none is made, so nothing is sent) are as before, and the call
  returns null. With a parameter, or for the usage text, it throws and changes nothing.
\<close>

theorem ping_sets_flags_only:
  assumes "ping st params fHelp = (r, st')"
  shows "if fHelp \<or> params \<noteq> [] then r = Inl (HelpError ''ping'') \<and> st' = st
         else r = Inr Null
            \<and> length (vNodes st') = length (vNodes st)
            \<and> (\<forall>i < length (vNodes st). vNodes st' ! i = (vNodes st ! i)\<lparr>fPingQueued := True\<rparr>)
            \<and> vAddedNodes st' = vAddedNodes st
            \<and> mapAlerts st' = mapAlerts st
            \<and> calls st' = calls st
            \<and> node_state.more st' = node_state.more st"
  using assms by (auto simp: ping_def ping_loop_length ping_loop_nth split: if_splits)

theorem ping_sets_flags_only_witness:
  "ping example_state [] False =
     (Inr Null, example_state\<lparr>vNodes := [peer_out\<lparr>fPingQueued := True\<rparr>, peer_in\<lparr>fPingQueued := True\<rparr>]\<rparr>)
   \<and> length (vNodes (snd (ping example_state [] False))) = length (vNodes example_state)
   \<and> vNodes (snd (ping example_state [] False)) ! 1 = (vNodes example_state ! 1)\<lparr>fPingQueued := True\<rparr>
   \<and> calls (snd (ping example_state [] False)) = calls example_state"
proof -
  have run: "ping example_state [] False =
     (Inr Null, example_state\<lparr>vNodes := [peer_out\<lparr>fPingQueued := True\<rparr>, peer_in\<lparr>fPingQueued := True\<rparr>]\<rparr>)"
    by (simp add: ping_def example_state_def)
  have len: "(1::nat) < length (vNodes example_state)"
    by (simp add: example_state_def)
  from ping_sets_flags_only [OF run] len show ?thesis
    unfolding run by (simp add: example_state_def)
qed

subsection \<open>addnode and the names listed\<close>

lemma find_added_end: "find_added xs x = length xs \<longleftrightarrow> x \<notin> set xs"
  by (induction xs) auto

lemma find_added_le: "find_added xs x \<le> length xs"
  by (induction xs) auto

lemma vector_erase_first: "x \<in> set xs \<Longrightarrow> vector_erase xs (find_added xs x) = remove1 x xs"
  by (induction xs) (auto simp: vector_erase_def)

lemma addnode_add:
  "addnode e st [VStr x, VStr ''add''] False =
     (if x \<in> set (vAddedNodes st)
      then (Inl (JSONRPCError RPC_CLIENT_NODE_ALREADY_ADDED ''Error: Node already added''), st)
      else (Inr Null, st\<lparr>vAddedNodes := vAddedNodes st @ [x]\<rparr>))"
  using find_added_end [of "vAddedNodes st" x]
  by (simp add: addnode_def get_str_def Let_def)

lemma addnode_remove:
  "addnode e st [VStr x, VStr ''remove''] False =
     (if x \<in> set (vAddedNodes st)
      then (Inr Null, st\<lparr>vAddedNodes := remove1 x (vAddedNodes st)\<rparr>)
      else (Inl (JSONRPCError RPC_CLIENT_NODE_NOT_ADDED ''Error: Node has not been added.''), st))"
  using find_added_end [of "vAddedNodes st" x] vector_erase_first [of x "vAddedNodes st"]
  by (simp add: addnode_def get_str_def Let_def)

lemma addnode_onetry:
  "addnode e st [VStr x, VStr ''onetry''] False =
     (Inr Null, st\<lparr>vNodes := ConnectNode e x (vNodes st), calls := calls st @ [CallConnectNode x]\<rparr>)"
  by (simp add: addnode_def get_str_def)

text \<open>
  C3. For every target \<open>x\<close>: \<^verbatim>\<open>addnode x add\<close> throws the node-already-added error and
  leaves the state as it is when \<open>x\<close> is in the added-node list, and otherwise appends
  \<open>x\<close>, which then occurs once; \<^verbatim>\<open>addnode x remove\<close> throws the node-not-added error and
  leaves the state as it is when \<open>x\<close> is absent, and otherwise erases the first entry equal
  to \<open>x\<close> (the list is one shorter, and no longer holds \<open>x\<close> when it had no duplicates).
  From a list without \<open>x\<close>, add, add, remove, remove give success, already added, success,
  not added, and end in the first state.
\<close>

theorem addnode_add_remove:
  "(x \<in> set (vAddedNodes st) \<longrightarrow>
      addnode e st [VStr x, VStr ''add''] False =
        (Inl (JSONRPCError RPC_CLIENT_NODE_ALREADY_ADDED ''Error: Node already added''), st))
   \<and> (x \<notin> set (vAddedNodes st) \<longrightarrow>
      addnode e st [VStr x, VStr ''add''] False =
        (Inr Null, st\<lparr>vAddedNodes := vAddedNodes st @ [x]\<rparr>)
      \<and> count_list (vAddedNodes st @ [x]) x = 1)
   \<and> (x \<notin> set (vAddedNodes st) \<longrightarrow>
      addnode e st [VStr x, VStr ''remove''] False =
        (Inl (JSONRPCError RPC_CLIENT_NODE_NOT_ADDED ''Error: Node has not been added.''), st))
   \<and> (x \<in> set (vAddedNodes st) \<longrightarrow>
      addnode e st [VStr x, VStr ''remove''] False =
        (Inr Null, st\<lparr>vAddedNodes := remove1 x (vAddedNodes st)\<rparr>)
      \<and> length (remove1 x (vAddedNodes st)) + 1 = length (vAddedNodes st)
      \<and> (distinct (vAddedNodes st) \<longrightarrow> x \<notin> set (remove1 x (vAddedNodes st))))
   \<and> (x \<notin> set (vAddedNodes st) \<longrightarrow>
      (let (r1, s1) = addnode e st [VStr x, VStr ''add''] False;
           (r2, s2) = addnode e s1 [VStr x, VStr ''add''] False;
           (r3, s3) = addnode e s2 [VStr x, VStr ''remove''] False;
           (r4, s4) = addnode e s3 [VStr x, VStr ''remove''] False
       in r1 = Inr Null
        \<and> r2 = Inl (JSONRPCError RPC_CLIENT_NODE_ALREADY_ADDED ''Error: Node already added'')
        \<and> r3 = Inr Null
        \<and> r4 = Inl (JSONRPCError RPC_CLIENT_NODE_NOT_ADDED ''Error: Node has not been added.'')
        \<and> s1 = st\<lparr>vAddedNodes := vAddedNodes st @ [x]\<rparr>
        \<and> s2 = s1 \<and> s3 = st \<and> s4 = st))"
proof -
  have absent: "x \<notin> set xs \<Longrightarrow> count_list (xs @ [x]) x = 1" for xs
    by (simp add: count_list_0_iff)
  have shorter: "x \<in> set xs \<Longrightarrow> Suc (length (remove1 x xs)) = length xs" for xs
    by (induction xs) auto
  have undo: "x \<notin> set xs \<Longrightarrow> remove1 x (xs @ [x]) = xs" for xs
    by (simp add: remove1_append)
  show ?thesis
    by (simp add: addnode_add addnode_remove absent shorter undo)
qed


theorem addnode_add_remove_witness:
  "''10.0.0.9'' \<notin> set (vAddedNodes example_state)
   \<and> addnode example_env example_state [VStr ''10.0.0.9'', VStr ''add''] False =
       (Inr Null, example_state\<lparr>vAddedNodes := [''unresolved.example'', ''10.0.0.5'', ''10.0.0.9'']\<rparr>)
   \<and> addnode example_env example_state [VStr ''10.0.0.9'', VStr ''remove''] False =
       (Inl (JSONRPCError RPC_CLIENT_NODE_NOT_ADDED ''Error: Node has not been added.''), example_state)
   \<and> ''10.0.0.5'' \<in> set (vAddedNodes example_state)
   \<and> addnode example_env example_state [VStr ''10.0.0.5'', VStr ''add''] False =
       (Inl (JSONRPCError RPC_CLIENT_NODE_ALREADY_ADDED ''Error: Node already added''), example_state)
   \<and> addnode example_env example_state [VStr ''10.0.0.5'', VStr ''remove''] False =
       (Inr Null, example_state\<lparr>vAddedNodes := [''unresolved.example'']\<rparr>)"
proof -
  have out: "''10.0.0.9'' \<notin> set (vAddedNodes example_state)"
    and inside: "''10.0.0.5'' \<in> set (vAddedNodes example_state)"
    by (simp_all add: example_state_def)
  from out inside
    addnode_add_remove [of "''10.0.0.9''" example_state example_env]
    addnode_add_remove [of "''10.0.0.5''" example_state example_env]
  show ?thesis
    by (simp add: example_state_def)
qed

lemma listed_bare: "listed_names (VArray (bare_entries xs)) = xs"
  by (induction xs) (simp_all add: listed_names_def)

lemma listed_resolved: "listed_names (VArray (resolved_entries e nodes pairs)) = map fst pairs"
  by (induction pairs) (auto simp: listed_names_def split: prod.splits)

lemma lookup_added_names: "map fst (lookup_added e xs) = filter (\<lambda>s. Lookup e s \<noteq> None) xs"
  by (induction xs) (auto split: option.splits)

lemma lookup_added_set:
  "(s, v) \<in> set (lookup_added e xs) \<longleftrightarrow> s \<in> set xs \<and> Lookup e s = Some v"
  by (induction xs) (auto split: option.splits)

lemma first_equal_eq: "first_equal xs x = (if x \<in> set xs then [x] else [])"
  by (induction xs) auto

lemma getaddednodeinfo_all:
  "getaddednodeinfo e st [VBool fDns] False =
     (Inr (VArray (if fDns then resolved_entries e (vNodes st) (lookup_added e (vAddedNodes st))
                   else bare_entries (vAddedNodes st))), st)"
  by (simp add: getaddednodeinfo_def get_bool_def select_added_def)

lemma getaddednodeinfo_one:
  "getaddednodeinfo e st [VBool fDns, VStr x] False =
     (if x \<in> set (vAddedNodes st)
      then (Inr (VArray (if fDns then resolved_entries e (vNodes st) (lookup_added e [x])
                         else bare_entries [x])), st)
      else (Inl (JSONRPCError RPC_CLIENT_NODE_NOT_ADDED ''Error: Node has not been added.''), st))"
  by (simp add: getaddednodeinfo_def get_bool_def get_str_def select_added_def first_equal_eq)

lemma listed_all:
  "listed (getaddednodeinfo e st [VBool fDns] False) =
     (if fDns then filter (\<lambda>s. Lookup e s \<noteq> None) (vAddedNodes st) else vAddedNodes st)"
  by (simp add: listed_def getaddednodeinfo_all listed_bare listed_resolved lookup_added_names)

text \<open>
  C6. \<^verbatim>\<open>addnode x onetry\<close> returns null without an error and leaves the added-node list
  (and the alerts) as they were: every listing of \<^verbatim>\<open>getaddednodeinfo\<close> shows the names it
  showed before, all of them from the old list, and a target that was not in the list is not
  listed afterwards and asking for it by name throws the node-not-added error.
\<close>

theorem addnode_onetry_frame:
  assumes "addnode e st [VStr x, VStr ''onetry''] False = (r, st')"
  shows "r = Inr Null
       \<and> vAddedNodes st' = vAddedNodes st
       \<and> mapAlerts st' = mapAlerts st
       \<and> listed (getaddednodeinfo e st' [VBool fDns] False) =
           listed (getaddednodeinfo e st [VBool fDns] False)
       \<and> set (listed (getaddednodeinfo e st' [VBool fDns] False)) \<subseteq> set (vAddedNodes st)
       \<and> (x \<notin> set (vAddedNodes st) \<longrightarrow>
            x \<notin> set (listed (getaddednodeinfo e st' [VBool fDns] False))
          \<and> fst (getaddednodeinfo e st' [VBool fDns, VStr x] False) =
              Inl (JSONRPCError RPC_CLIENT_NODE_NOT_ADDED ''Error: Node has not been added.''))"
proof -
  from assms have r: "r = Inr Null"
    and st': "st' = st\<lparr>vNodes := ConnectNode e x (vNodes st), calls := calls st @ [CallConnectNode x]\<rparr>"
    by (simp_all add: addnode_onetry)
  have same: "vAddedNodes st' = vAddedNodes st" "mapAlerts st' = mapAlerts st"
    by (simp_all add: st')
  show ?thesis
    by (simp add: r same listed_all getaddednodeinfo_one)
qed

theorem addnode_onetry_frame_witness:
  "addnode example_env example_state [VStr ''10.0.0.9'', VStr ''onetry''] False =
     (Inr Null, example_state\<lparr>calls := [CallConnectNode ''10.0.0.9'']\<rparr>)
   \<and> ''10.0.0.9'' \<notin> set (vAddedNodes example_state)
   \<and> vAddedNodes (example_state\<lparr>calls := [CallConnectNode ''10.0.0.9'']\<rparr>) =
       [''unresolved.example'', ''10.0.0.5'']
   \<and> listed (getaddednodeinfo example_env
        (example_state\<lparr>calls := [CallConnectNode ''10.0.0.9'']\<rparr>) [VBool False] False) =
       [''unresolved.example'', ''10.0.0.5'']
   \<and> fst (getaddednodeinfo example_env
        (example_state\<lparr>calls := [CallConnectNode ''10.0.0.9'']\<rparr>)
        [VBool False, VStr ''10.0.0.9''] False) =
       Inl (JSONRPCError RPC_CLIENT_NODE_NOT_ADDED ''Error: Node has not been added.'')"
proof -
  have run: "addnode example_env example_state [VStr ''10.0.0.9'', VStr ''onetry''] False =
     (Inr Null, example_state\<lparr>calls := [CallConnectNode ''10.0.0.9'']\<rparr>)"
    by (simp add: addnode_def get_str_def example_state_def example_env_def)
  have out: "''10.0.0.9'' \<notin> set (vAddedNodes example_state)"
    by (simp add: example_state_def)
  have before: "listed (getaddednodeinfo example_env example_state [VBool False] False) =
      [''unresolved.example'', ''10.0.0.5'']"
    by (simp add: listed_def listed_names_def getaddednodeinfo_def get_bool_def select_added_def example_state_def)
  from addnode_onetry_frame [OF run, of False] out before show ?thesis
    by (simp add: run) (simp add: example_state_def)
qed

subsection \<open>getaddednodeinfo\<close>

lemma find_peer_None: "find_peer nodes a = None \<longleftrightarrow> \<not> (\<exists>p\<in>set nodes. addr p = a)"
  by (induction nodes) auto

lemma find_peer_Some: "find_peer nodes a = Some p \<Longrightarrow> p \<in> set nodes \<and> addr p = a"
  by (induction nodes) (auto split: if_splits)

lemma address_entries_Cons:
  "address_entries e nodes (a # rest) fc =
     (case find_peer nodes a of
        Some p \<Rightarrow>
          (VObject [(''address'', VStr (ToString e a)),
                    (''connected'', VStr (if fInbound p then ''inbound'' else ''outbound''))]
             # fst (address_entries e nodes rest True),
           snd (address_entries e nodes rest True))
      | None \<Rightarrow>
          (VObject [(''address'', VStr (ToString e a)), (''connected'', VStr ''false'')]
             # fst (address_entries e nodes rest fc),
           snd (address_entries e nodes rest fc)))"
  by (simp add: case_prod_beta split: option.splits)

lemma address_entries_length: "length (fst (address_entries e nodes vserv fc)) = length vserv"
  by (induction vserv arbitrary: fc)
     (simp_all add: address_entries_Cons del: address_entries.simps(2) split: option.splits)

lemma address_entries_connected:
  "snd (address_entries e nodes vserv fc) \<longleftrightarrow> fc \<or> (\<exists>a\<in>set vserv. \<exists>p\<in>set nodes. addr p = a)"
proof (induction vserv arbitrary: fc)
  case Nil
  then show ?case by simp
next
  case (Cons a vserv)
  show ?case
  proof (cases "find_peer nodes a")
    case None
    then have "\<not> (\<exists>p\<in>set nodes. addr p = a)" by (simp add: find_peer_None)
    with None Cons [of fc] show ?thesis
      by (simp add: address_entries_Cons del: address_entries.simps(2))
  next
    case (Some p)
    from find_peer_Some [OF Some] have "\<exists>p\<in>set nodes. addr p = a" by blast
    with Some Cons [of True] show ?thesis
      by (simp add: address_entries_Cons del: address_entries.simps(2))
  qed
qed

lemma find_peer_first:
  "find_peer nodes a = Some p \<Longrightarrow>
   \<exists>i<length nodes. nodes ! i = p \<and> addr p = a \<and> (\<forall>j<i. addr (nodes ! j) \<noteq> a)"
proof (induction nodes)
  case Nil
  then show ?case by simp
next
  case (Cons n nodes)
  show ?case
  proof (cases "addr n = a")
    case True
    with Cons.prems have "p = n" by simp
    with True have "(n # nodes) ! 0 = p \<and> addr p = a \<and> (\<forall>j<0. addr ((n # nodes) ! j) \<noteq> a)"
      by simp
    then show ?thesis by blast
  next
    case False
    with Cons.prems have "find_peer nodes a = Some p" by simp
    from Cons.IH [OF this] obtain i where i: "i < length nodes" "nodes ! i = p" "addr p = a"
      "\<forall>j<i. addr (nodes ! j) \<noteq> a"
      by blast
    have "addr ((n # nodes) ! j) \<noteq> a" if "j < Suc i" for j
      using that False i(4) by (cases j) simp_all
    with i have "Suc i < length (n # nodes) \<and> (n # nodes) ! Suc i = p \<and> addr p = a
        \<and> (\<forall>j<Suc i. addr ((n # nodes) ! j) \<noteq> a)"
      by simp
    then show ?thesis by blast
  qed
qed

lemma find_peer_report:
  "candidate_report nodes a
     (case find_peer nodes a of
        None \<Rightarrow> ''false''
      | Some p \<Rightarrow> if fInbound p then ''inbound'' else ''outbound'')"
proof (cases "find_peer nodes a")
  case None
  then have "\<not> (\<exists>p\<in>set nodes. addr p = a)" by (simp add: find_peer_None)
  with None show ?thesis by (simp add: candidate_report_def)
next
  case (Some p)
  from find_peer_Some [OF Some] have some: "\<exists>p\<in>set nodes. addr p = a" by blast
  from find_peer_first [OF Some] obtain i where "i < length nodes" "nodes ! i = p"
    "\<forall>j<i. addr (nodes ! j) \<noteq> a" "addr p = a"
    by blast
  then have "\<exists>i<length nodes. addr (nodes ! i) = a \<and> (\<forall>j<i. addr (nodes ! j) \<noteq> a)
      \<and> (if fInbound p then ''inbound'' else ''outbound'') =
          (if fInbound (nodes ! i) then ''inbound'' else ''outbound'')"
    by blast
  with some Some show ?thesis by (simp add: candidate_report_def)
qed

lemma address_entries_fst:
  "fst (address_entries e nodes vserv fc) =
     map (\<lambda>a. VObject [(''address'', VStr (ToString e a)),
                        (''connected'',
                         VStr (case find_peer nodes a of
                                 None \<Rightarrow> ''false''
                               | Some p \<Rightarrow> if fInbound p then ''inbound'' else ''outbound''))])
       vserv"
  by (induction vserv arbitrary: fc)
     (simp_all add: address_entries_Cons del: address_entries.simps(2) split: option.splits)

lemma address_entries_report:
  "i < length vserv \<Longrightarrow>
   \<exists>c. fst (address_entries e nodes vserv fc) ! i =
          VObject [(''address'', VStr (ToString e (vserv ! i))), (''connected'', VStr c)]
      \<and> candidate_report nodes (vserv ! i) c"
  using find_peer_report [of nodes "vserv ! i"] by (simp add: address_entries_fst)

lemma bare_entries_map: "bare_entries xs = map (\<lambda>name. VObject [(''addednode'', VStr name)]) xs"
  by (induction xs) simp_all

lemma resolved_entries_length: "length (resolved_entries e nodes pairs) = length pairs"
  by (induction pairs) (auto split: prod.splits)

lemma resolved_entries_nth:
  "k < length pairs \<Longrightarrow>
   resolved_entries e nodes pairs ! k =
     VObject [(''addednode'', VStr (fst (pairs ! k))),
              (''connected'', VBool (snd (address_entries e nodes (snd (pairs ! k)) False))),
              (''addresses'', VArray (fst (address_entries e nodes (snd (pairs ! k)) False)))]"
proof (induction pairs arbitrary: k)
  case Nil
  then show ?case by simp
next
  case (Cons pr pairs)
  then show ?case
    by (cases k; cases pr) (auto split: prod.splits)
qed


lemma resolved_entries_report: "dns_report e nodes selected (resolved_entries e nodes (lookup_added e selected))"
proof -
  let ?pairs = "lookup_added e selected"
  let ?entries = "resolved_entries e nodes ?pairs"
  have len: "length ?entries = length ?pairs"
    by (simp add: resolved_entries_length)
  have each: "\<exists>ents.
             ?entries ! k =
               VObject [(''addednode'', VStr (fst (?pairs ! k))),
                        (''connected'',
                         VBool (\<exists>a\<in>set (snd (?pairs ! k)). \<exists>p\<in>set nodes. addr p = a)),
                        (''addresses'', VArray ents)]
           \<and> length ents = length (snd (?pairs ! k))
           \<and> (\<forall>i < length ents.
                \<exists>c. ents ! i =
                       VObject [(''address'', VStr (ToString e (snd (?pairs ! k) ! i))),
                                (''connected'', VStr c)]
                   \<and> candidate_report nodes (snd (?pairs ! k) ! i) c)"
    if k: "k < length ?entries" for k
  proof -
    let ?vserv = "snd (?pairs ! k)"
    let ?ents = "fst (address_entries e nodes ?vserv False)"
    from k len have k': "k < length ?pairs" by simp
    have a: "?entries ! k =
               VObject [(''addednode'', VStr (fst (?pairs ! k))),
                        (''connected'',
                         VBool (\<exists>a\<in>set ?vserv. \<exists>p\<in>set nodes. addr p = a)),
                        (''addresses'', VArray ?ents)]"
      by (simp add: resolved_entries_nth [OF k'] address_entries_connected)
    have b: "length ?ents = length ?vserv"
      by (rule address_entries_length)
    have c: "\<forall>i < length ?ents.
                \<exists>c. ?ents ! i =
                       VObject [(''address'', VStr (ToString e (?vserv ! i))),
                                (''connected'', VStr c)]
                   \<and> candidate_report nodes (?vserv ! i) c"
      unfolding b using address_entries_report [of _ ?vserv e nodes False] by blast
    from a b c show ?thesis by blast
  qed
  from len each show ?thesis
    unfolding dns_report_def by blast
qed

text \<open>
  C5. Without name lookup \<^verbatim>\<open>getaddednodeinfo\<close> returns, for each selected added node, an
  object holding the name and nothing else. With name lookup, the entry of each selected
  name that resolved carries one object per candidate address, in order: its
  \<^verbatim>\<open>connected\<close> member is \<^verbatim>\<open>false\<close> exactly when no live peer's address equals the
  candidate (addresses are compared, never names), and otherwise the direction, inbound or
  outbound, of the first live peer with that address; the entry's own \<^verbatim>\<open>connected\<close> flag
  says whether some candidate is connected. The selected nodes are all added nodes for a call
  with one parameter and the named node for a call with two; a name that was not added
  throws the node-not-added error, a call with no or more than two parameters throws the
  usage text, and a parameter of another type than boolean and string makes its accessor
  throw.
\<close>

theorem getaddednodeinfo_listing:
  "getaddednodeinfo e st [VBool False] False =
     (Inr (VArray (map (\<lambda>name. VObject [(''addednode'', VStr name)]) (vAddedNodes st))), st)
   \<and> (x \<in> set (vAddedNodes st) \<longrightarrow>
        getaddednodeinfo e st [VBool False, VStr x] False =
          (Inr (VArray [VObject [(''addednode'', VStr x)]]), st))
   \<and> (\<exists>entries.
        getaddednodeinfo e st [VBool True] False = (Inr (VArray entries), st)
      \<and> dns_report e (vNodes st) (vAddedNodes st) entries)
   \<and> (x \<in> set (vAddedNodes st) \<longrightarrow>
        (\<exists>entries.
           getaddednodeinfo e st [VBool True, VStr x] False = (Inr (VArray entries), st)
         \<and> dns_report e (vNodes st) [x] entries))
   \<and> (x \<notin> set (vAddedNodes st) \<longrightarrow>
        getaddednodeinfo e st [VBool fDns, VStr x] False =
          (Inl (JSONRPCError RPC_CLIENT_NODE_NOT_ADDED ''Error: Node has not been added.''), st))
   \<and> (fHelp \<or> length params < 1 \<or> 2 < length params \<longrightarrow>
        getaddednodeinfo e st params fHelp = (Inl (HelpError ''getaddednodeinfo''), st))
   \<and> (length params = 1 \<or> length params = 2 \<longrightarrow> \<not> fHelp \<longrightarrow>
        (\<forall>b. params ! 0 \<noteq> VBool b) \<longrightarrow>
        getaddednodeinfo e st params fHelp = (Inl TypeError, st))
   \<and> ((\<forall>name. v \<noteq> VStr name) \<longrightarrow>
        getaddednodeinfo e st [VBool fDns, v] False = (Inl TypeError, st))
   \<and> (\<forall>name vserv. (name, vserv) \<in> set (lookup_added e selected) \<longleftrightarrow>
         name \<in> set selected \<and> Lookup e name = Some vserv)
   \<and> map fst (lookup_added e selected) = filter (\<lambda>name. Lookup e name \<noteq> None) selected"
proof -
  have plain: "getaddednodeinfo e st [VBool False] False =
     (Inr (VArray (map (\<lambda>name. VObject [(''addednode'', VStr name)]) (vAddedNodes st))), st)"
    by (simp add: getaddednodeinfo_all bare_entries_map)
  have one: "x \<in> set (vAddedNodes st) \<longrightarrow>
        getaddednodeinfo e st [VBool False, VStr x] False =
          (Inr (VArray [VObject [(''addednode'', VStr x)]]), st)"
    by (simp add: getaddednodeinfo_one)
  have dns: "\<exists>entries.
        getaddednodeinfo e st [VBool True] False = (Inr (VArray entries), st)
      \<and> dns_report e (vNodes st) (vAddedNodes st) entries"
    using resolved_entries_report [of e "vNodes st" "vAddedNodes st"]
    by (simp add: getaddednodeinfo_all)
  have dns_one: "x \<in> set (vAddedNodes st) \<longrightarrow>
        (\<exists>entries.
           getaddednodeinfo e st [VBool True, VStr x] False = (Inr (VArray entries), st)
         \<and> dns_report e (vNodes st) [x] entries)"
    using resolved_entries_report [of e "vNodes st" "[x]"]
    by (simp add: getaddednodeinfo_one)
  have missing: "x \<notin> set (vAddedNodes st) \<longrightarrow>
        getaddednodeinfo e st [VBool fDns, VStr x] False =
          (Inl (JSONRPCError RPC_CLIENT_NODE_NOT_ADDED ''Error: Node has not been added.''), st)"
    by (simp add: getaddednodeinfo_one)
  have usage: "fHelp \<or> length params < 1 \<or> 2 < length params \<longrightarrow>
        getaddednodeinfo e st params fHelp = (Inl (HelpError ''getaddednodeinfo''), st)"
    by (simp add: getaddednodeinfo_def)
  have first_type: "length params = 1 \<or> length params = 2 \<longrightarrow> \<not> fHelp \<longrightarrow>
        (\<forall>b. params ! 0 \<noteq> VBool b) \<longrightarrow>
        getaddednodeinfo e st params fHelp = (Inl TypeError, st)"
    by (auto simp: getaddednodeinfo_def get_bool_def split: Value.splits)
  have second_type: "(\<forall>name. v \<noteq> VStr name) \<longrightarrow>
        getaddednodeinfo e st [VBool fDns, v] False = (Inl TypeError, st)"
    by (auto simp: getaddednodeinfo_def get_bool_def get_str_def select_added_def
          split: Value.splits)
  have sel: "\<forall>name vserv. (name, vserv) \<in> set (lookup_added e selected) \<longleftrightarrow>
         name \<in> set selected \<and> Lookup e name = Some vserv"
    by (simp add: lookup_added_set)
  have names: "map fst (lookup_added e selected) = filter (\<lambda>name. Lookup e name \<noteq> None) selected"
    by (rule lookup_added_names)
  from plain one dns dns_one missing usage first_type second_type sel names
  show ?thesis by blast
qed

theorem getaddednodeinfo_listing_witness:
  "getaddednodeinfo example_env example_state [VBool False] False =
     (Inr (VArray [VObject [(''addednode'', VStr ''unresolved.example'')],
                   VObject [(''addednode'', VStr ''10.0.0.5'')]]), example_state)
   \<and> ''10.0.0.5'' \<in> set (vAddedNodes example_state)
   \<and> getaddednodeinfo example_env example_state [VBool False, VStr ''10.0.0.5''] False =
       (Inr (VArray [VObject [(''addednode'', VStr ''10.0.0.5'')]]), example_state)
   \<and> getaddednodeinfo example_env example_state [VBool True, VStr ''10.0.0.5''] False =
       (Inr (VArray
          [VObject [(''addednode'', VStr ''10.0.0.5''), (''connected'', VBool True),
                    (''addresses'', VArray
                       [VObject [(''address'', VStr ''10.0.0.5:9377''),
                                 (''connected'', VStr ''outbound'')]])]]),
        example_state)
   \<and> ''10.0.0.9'' \<notin> set (vAddedNodes example_state)
   \<and> getaddednodeinfo example_env example_state [VBool True, VStr ''10.0.0.9''] False =
       (Inl (JSONRPCError RPC_CLIENT_NODE_NOT_ADDED ''Error: Node has not been added.''),
        example_state)
   \<and> getaddednodeinfo example_env example_state [] False =
       (Inl (HelpError ''getaddednodeinfo''), example_state)
   \<and> getaddednodeinfo example_env
        (example_state\<lparr>vAddedNodes := [''10.0.0.5'', ''multi.example'']\<rparr>) [VBool True] False =
       (Inr (VArray
          [VObject [(''addednode'', VStr ''10.0.0.5''), (''connected'', VBool True),
                    (''addresses'', VArray
                       [VObject [(''address'', VStr ''10.0.0.5:9377''),
                                 (''connected'', VStr ''outbound'')]])],
           VObject [(''addednode'', VStr ''multi.example''), (''connected'', VBool True),
                    (''addresses'', VArray
                       [VObject [(''address'', VStr ''10.0.0.7:9377''),
                                 (''connected'', VStr ''inbound'')],
                        VObject [(''address'', VStr ''10.0.0.9:9377''),
                                 (''connected'', VStr ''false'')]])]]),
        example_state\<lparr>vAddedNodes := [''10.0.0.5'', ''multi.example'']\<rparr>)"
proof -
  have inside: "''10.0.0.5'' \<in> set (vAddedNodes example_state)"
    and out: "''10.0.0.9'' \<notin> set (vAddedNodes example_state)"
    by (simp_all add: example_state_def)
  have named: "getaddednodeinfo example_env example_state [VBool True, VStr ''10.0.0.5''] False =
       (Inr (VArray
          [VObject [(''addednode'', VStr ''10.0.0.5''), (''connected'', VBool True),
                    (''addresses'', VArray
                       [VObject [(''address'', VStr ''10.0.0.5:9377''),
                                 (''connected'', VStr ''outbound'')]])]]),
        example_state)"
    by (simp add: getaddednodeinfo_def get_bool_def get_str_def select_added_def
          example_state_def example_env_def peer_out_def peer_in_def addr_a_def addr_b_def
          addr_c_def)
  have dns: "getaddednodeinfo example_env
        (example_state\<lparr>vAddedNodes := [''10.0.0.5'', ''multi.example'']\<rparr>) [VBool True] False =
       (Inr (VArray
          [VObject [(''addednode'', VStr ''10.0.0.5''), (''connected'', VBool True),
                    (''addresses'', VArray
                       [VObject [(''address'', VStr ''10.0.0.5:9377''),
                                 (''connected'', VStr ''outbound'')]])],
           VObject [(''addednode'', VStr ''multi.example''), (''connected'', VBool True),
                    (''addresses'', VArray
                       [VObject [(''address'', VStr ''10.0.0.7:9377''),
                                 (''connected'', VStr ''inbound'')],
                        VObject [(''address'', VStr ''10.0.0.9:9377''),
                                 (''connected'', VStr ''false'')]])]]),
        example_state\<lparr>vAddedNodes := [''10.0.0.5'', ''multi.example'']\<rparr>)"
    by (simp add: getaddednodeinfo_def get_bool_def select_added_def example_state_def
          example_env_def peer_out_def peer_in_def addr_a_def addr_b_def addr_c_def)
  from getaddednodeinfo_listing [where e = example_env and st = example_state
      and x = "''10.0.0.5''" and params = "[]" and fHelp = False]
    getaddednodeinfo_listing [where e = example_env and st = example_state
      and x = "''10.0.0.9''" and fDns = True]
    inside out named dns
  show ?thesis
    by (simp add: example_state_def)
qed

text \<open>A name whose lookup fails is in no listing made with name lookup.\<close>

lemma lookup_failure_not_listed:
  "Lookup e name = None \<Longrightarrow> name \<notin> set (listed (getaddednodeinfo e st [VBool True] False))"
  by (simp add: listed_all)

text \<open>
  C1. A listing with name lookup over the added nodes \<^verbatim>\<open>unresolved.example\<close> (which does
  not resolve) and \<^verbatim>\<open>10.0.0.5\<close> (which does): the call does not throw and the entry of the
  second name is complete, but the first name is not in the array; asked for by name alone,
  it gives the empty array. The object the source builds for it (present, not connected, no
  addresses) is never appended to the result.
\<close>

theorem getaddednodeinfo_unresolved_dropped:
  "Lookup example_env ''unresolved.example'' = None
   \<and> vAddedNodes example_state = [''unresolved.example'', ''10.0.0.5'']
   \<and> getaddednodeinfo example_env example_state [VBool True] False =
       (Inr (VArray
          [VObject [(''addednode'', VStr ''10.0.0.5''), (''connected'', VBool True),
                    (''addresses'', VArray
                       [VObject [(''address'', VStr ''10.0.0.5:9377''),
                                 (''connected'', VStr ''outbound'')]])]]),
        example_state)
   \<and> getaddednodeinfo example_env example_state [VBool True, VStr ''unresolved.example''] False =
       (Inr (VArray []), example_state)"
  by (simp add: getaddednodeinfo_def get_bool_def get_str_def select_added_def example_state_def
        example_env_def peer_out_def peer_in_def addr_a_def addr_b_def addr_c_def)

subsection \<open>GetNetworksInfo\<close>

lemma networks_loop_eq:
  "networks_loop e n networks =
     networks @ map (network_entry e) (filter (\<lambda>k. k \<noteq> NET_UNROUTABLE e) [n..<NET_MAX e])"
proof (induction e n networks rule: networks_loop.induct)
  case (1 e n networks)
  show ?case
  proof (cases "n < NET_MAX e")
    case True
    then have upt: "[n..<NET_MAX e] = n # [Suc n..<NET_MAX e]"
      by (simp add: upt_conv_Cons)
    show ?thesis
    proof (cases "n = NET_UNROUTABLE e")
      case True
      with \<open>n < NET_MAX e\<close> "1.IH"(1) upt show ?thesis
        by (subst networks_loop.simps) simp
    next
      case False
      with \<open>n < NET_MAX e\<close> "1.IH"(2) upt show ?thesis
        by (subst networks_loop.simps) simp
    qed
  next
    case False
    then show ?thesis by (subst networks_loop.simps) simp
  qed
qed

text \<open>
  C8. The network description inside \<^verbatim>\<open>getnetworkinfo\<close> holds exactly one entry for each
  network number below \<open>NET_MAX\<close> other than \<open>NET_UNROUTABLE\<close>, in ascending order of the
  numbers, and each entry carries the name, the limited flag, the reachable flag and the proxy
  string, which is empty when the proxy of the network is not valid.
\<close>

theorem GetNetworksInfo_entries:
  "GetNetworksInfo e =
     map (network_entry e) (filter (\<lambda>n. n \<noteq> NET_UNROUTABLE e) [0..<NET_MAX e])
   \<and> length (GetNetworksInfo e) =
       (if NET_UNROUTABLE e < NET_MAX e then NET_MAX e - 1 else NET_MAX e)
   \<and> (\<forall>n. network_entry e n =
         VObject [(''name'', VStr (GetNetworkName e n)),
                  (''limited'', VBool (IsLimited e n)),
                  (''reachable'', VBool (IsReachable e n)),
                  (''proxy'', VStr (if IsValid e (GetProxy e n)
                                    then ToStringIPPort e (GetProxy e n) else []))])
   \<and> result_member ''networkconnections'' (getnetworkinfo e st [] False) =
       Some (VArray (GetNetworksInfo e))"
proof -
  have eq: "GetNetworksInfo e =
     map (network_entry e) (filter (\<lambda>n. n \<noteq> NET_UNROUTABLE e) [0..<NET_MAX e])"
    by (simp add: GetNetworksInfo_def networks_loop_eq)
  have count: "length (filter (\<lambda>n. n \<noteq> u) [0..<m]) = (if u < m then m - 1 else m)" for u m :: nat
    by (induction m) auto
  have len: "length (GetNetworksInfo e) =
       (if NET_UNROUTABLE e < NET_MAX e then NET_MAX e - 1 else NET_MAX e)"
    unfolding eq length_map by (rule count)
  have shown: "result_member ''networkconnections'' (getnetworkinfo e st [] False) =
       Some (VArray (GetNetworksInfo e))"
    by (simp add: result_member_def getnetworkinfo_def)
  from eq len shown show ?thesis
    by (simp add: network_entry_def)
qed

theorem GetNetworksInfo_entries_witness:
  "GetNetworksInfo example_env =
     [VObject [(''name'', VStr ''ipv4''), (''limited'', VBool False),
               (''reachable'', VBool True), (''proxy'', VStr [])],
      VObject [(''name'', VStr ''ipv6''), (''limited'', VBool False),
               (''reachable'', VBool True), (''proxy'', VStr [])],
      VObject [(''name'', VStr ''tor''), (''limited'', VBool False),
               (''reachable'', VBool True), (''proxy'', VStr ''127.0.0.1:9050'')],
      VObject [(''name'', VStr ''i2p''), (''limited'', VBool True),
               (''reachable'', VBool False), (''proxy'', VStr [])]]
   \<and> length (GetNetworksInfo example_env) = 4"
proof -
  have five: "[0..<5] = [0, 1, 2, 3, 4::nat]"
    by code_simp
  have m: "NET_MAX example_env = 5" and u: "NET_UNROUTABLE example_env = 0"
    by (simp_all add: example_env_def)
  from GetNetworksInfo_entries [of example_env example_state] show ?thesis
    unfolding m u five by (simp add: example_env_def)
qed

subsection \<open>SingleAlertSubVersionsString\<close>

lemma subvers_join_nonempty:
  "acc \<noteq> [] \<Longrightarrow> subvers_join xs acc = acc @ concat (map (\<lambda>x. '' or '' @ x) xs)"
  by (induction xs arbitrary: acc) simp_all

lemma join_or_Cons: "join_or (x # xs) = x @ concat (map (\<lambda>y. '' or '' @ y) xs)"
  by (induction xs arbitrary: x) simp_all

text \<open>On a set without the empty string the rendering is the join.\<close>

lemma SingleAlertSubVersionsString_join:
  "[] \<notin> set setVersions \<Longrightarrow> SingleAlertSubVersionsString setVersions = join_or setVersions"
proof (cases setVersions)
  case Nil
  then show ?thesis by (simp add: SingleAlertSubVersionsString_def)
next
  case (Cons x xs)
  assume "[] \<notin> set setVersions"
  with Cons have "x \<noteq> []" by auto
  with Cons show ?thesis
    by (simp add: SingleAlertSubVersionsString_def subvers_join_nonempty join_or_Cons)
qed

text \<open>
  C9. The rendering of a subversion set is the join of its elements by \<^verbatim>\<open> or \<close> for the
  empty set, a singleton and two non-empty elements. On the set of the empty string and
  \<^verbatim>\<open>/A/\<close>, whose iteration order is the empty string first, the rendering is \<^verbatim>\<open>/A/\<close>
  with no separator, where the join of the two elements has one: the separator is appended
  when the string built so far is not empty, not when an element came before.
\<close>

theorem SingleAlertSubVersionsString_empty_element:
  "SingleAlertSubVersionsString [[], ''/A/''] = ''/A/''
   \<and> join_or [[], ''/A/''] = '' or /A/''
   \<and> sorted [[], ''/A/''] \<and> distinct [[], ''/A/'']
   \<and> SingleAlertSubVersionsString [[], ''/A/'', ''/B/''] = ''/A/ or /B/''
   \<and> SingleAlertSubVersionsString [] = []
   \<and> SingleAlertSubVersionsString [''/A/''] = ''/A/''
   \<and> SingleAlertSubVersionsString [''/A/'', ''/B/''] = ''/A/ or /B/''"
  by (simp add: SingleAlertSubVersionsString_def)

subsection \<open>The alerts of getnetworkinfo\<close>

lemma local_alerts_map: "local_alerts alerts = map (\<lambda>mi. alert_record (snd mi)) alerts"
  by (induction alerts) simp_all

text \<open>
  C2, as stated, fails: with one stored alert whose expiration is 100 and the clock at 200,
  the \<^verbatim>\<open>alerts\<close> array of \<^verbatim>\<open>getnetworkinfo\<close> holds that alert's record.
\<close>

theorem getnetworkinfo_lists_expired_alert:
  "mapAlerts example_state = [(1, old_alert)]
   \<and> nExpiration old_alert = 100
   \<and> GetAdjustedTime example_env = 200
   \<and> \<not> (GetAdjustedTime example_env < nExpiration old_alert)
   \<and> result_member ''alerts'' (getnetworkinfo example_env example_state [] False) =
       Some (VArray
         [VObject [(''AlertID'', VInt 7), (''Priority'', VInt 100), (''MinVer'', VInt 0),
                   (''MaxVer'', VInt 999999), (''SubVer'', VStr []), (''RelayUntil'', VInt 100),
                   (''Expiration'', VInt 100), (''StatusBar'', VStr ''upgrade required'')]])"
  by (simp add: result_member_def getnetworkinfo_def example_state_def example_env_def
        old_alert_def CAlert_null_def alert_record_def SingleAlertSubVersionsString_def)

text \<open>
  C2, amended. The \<^verbatim>\<open>alerts\<close> array of \<^verbatim>\<open>getnetworkinfo\<close> holds the record of every
  entry of \<^verbatim>\<open>mapAlerts\<close> at the time of the call, one per entry in the map's order, each
  with the entry's own id and expiration; the call reads no clock, applies no test of
  expiration or cancellation, and leaves the state as it is.
\<close>

theorem getnetworkinfo_alerts_unfiltered:
  "result_member ''alerts'' (getnetworkinfo e st [] False) =
     Some (VArray (map (\<lambda>mi. alert_record (snd mi)) (mapAlerts st)))
   \<and> snd (getnetworkinfo e st [] False) = st
   \<and> (\<forall>alert. obj_member ''Expiration'' (alert_record alert) = Some (VInt (nExpiration alert))
             \<and> obj_member ''AlertID'' (alert_record alert) = Some (VInt (nID alert)))"
  by (simp add: result_member_def getnetworkinfo_def local_alerts_map alert_record_def)

theorem getnetworkinfo_alerts_unfiltered_witness:
  "result_member ''alerts'' (getnetworkinfo example_env example_state [] False) =
     Some (VArray [alert_record old_alert])
   \<and> obj_member ''Expiration'' (alert_record old_alert) = Some (VInt 100)"
  using getnetworkinfo_alerts_unfiltered [of example_env example_state]
  by (simp add: example_state_def old_alert_def)

subsection \<open>The subversion parameter\<close>

lemma find_char_None:
  "find_char s ch pos = None \<longleftrightarrow> (\<forall>k. pos \<le> k \<and> k < length s \<longrightarrow> s ! k \<noteq> ch)"
proof (induction s ch pos rule: find_char.induct)
  case (1 s ch pos)
  show ?case
  proof (cases "pos < length s")
    case False
    then show ?thesis by (subst find_char.simps) auto
  next
    case True
    show ?thesis
    proof (cases "s ! pos = ch")
      case True
      with \<open>pos < length s\<close> show ?thesis
        by (subst find_char.simps) auto
    next
      case False
      have "(\<forall>k. pos \<le> k \<and> k < length s \<longrightarrow> s ! k \<noteq> ch) \<longleftrightarrow>
            (\<forall>k. Suc pos \<le> k \<and> k < length s \<longrightarrow> s ! k \<noteq> ch)"
      proof
        assume "\<forall>k. pos \<le> k \<and> k < length s \<longrightarrow> s ! k \<noteq> ch"
        then show "\<forall>k. Suc pos \<le> k \<and> k < length s \<longrightarrow> s ! k \<noteq> ch" by simp
      next
        assume a: "\<forall>k. Suc pos \<le> k \<and> k < length s \<longrightarrow> s ! k \<noteq> ch"
        show "\<forall>k. pos \<le> k \<and> k < length s \<longrightarrow> s ! k \<noteq> ch"
        proof (intro allI impI)
          fix k assume k: "pos \<le> k \<and> k < length s"
          show "s ! k \<noteq> ch"
          proof (cases "k = pos")
            case True
            with False show ?thesis by simp
          next
            case False
            with k have "Suc pos \<le> k" by simp
            with a k show ?thesis by simp
          qed
        qed
      qed
      with False True "1.IH" show ?thesis
        by (subst find_char.simps) simp
    qed
  qed
qed


lemma find_char_Some:
  "find_char s ch pos = Some i \<longleftrightarrow>
     pos \<le> i \<and> i < length s \<and> s ! i = ch \<and> (\<forall>k. pos \<le> k \<and> k < i \<longrightarrow> s ! k \<noteq> ch)"
proof (induction s ch pos rule: find_char.induct)
  case (1 s ch pos)
  show ?case
  proof (cases "pos < length s")
    case False
    then show ?thesis by (subst find_char.simps) auto
  next
    case True
    show ?thesis
    proof (cases "s ! pos = ch")
      case True
      have "i = pos \<longleftrightarrow>
            pos \<le> i \<and> i < length s \<and> s ! i = ch \<and> (\<forall>k. pos \<le> k \<and> k < i \<longrightarrow> s ! k \<noteq> ch)"
      proof
        assume "i = pos"
        with True \<open>pos < length s\<close> show
          "pos \<le> i \<and> i < length s \<and> s ! i = ch \<and> (\<forall>k. pos \<le> k \<and> k < i \<longrightarrow> s ! k \<noteq> ch)"
          by auto
      next
        assume a: "pos \<le> i \<and> i < length s \<and> s ! i = ch \<and> (\<forall>k. pos \<le> k \<and> k < i \<longrightarrow> s ! k \<noteq> ch)"
        show "i = pos"
        proof (rule ccontr)
          assume "i \<noteq> pos"
          with a have "pos < i" by simp
          with a have "s ! pos \<noteq> ch" by simp
          with True show False by simp
        qed
      qed
      with True \<open>pos < length s\<close> show ?thesis
        by (subst find_char.simps) auto
    next
      case False
      have "(pos \<le> i \<and> i < length s \<and> s ! i = ch \<and> (\<forall>k. pos \<le> k \<and> k < i \<longrightarrow> s ! k \<noteq> ch)) \<longleftrightarrow>
            (Suc pos \<le> i \<and> i < length s \<and> s ! i = ch \<and> (\<forall>k. Suc pos \<le> k \<and> k < i \<longrightarrow> s ! k \<noteq> ch))"
        (is "?L \<longleftrightarrow> ?R")
      proof
        assume l: ?L
        with False have "i \<noteq> pos" by auto
        with l have "Suc pos \<le> i" by simp
        with l show ?R by simp
      next
        assume r: ?R
        have "s ! k \<noteq> ch" if "pos \<le> k \<and> k < i" for k
        proof (cases "k = pos")
          case True
          with False show ?thesis by simp
        next
          case False
          with that have "Suc pos \<le> k" by simp
          with r that show ?thesis by simp
        qed
        with r show ?L by simp
      qed
      with False True "1.IH" show ?thesis
        by (subst find_char.simps) simp
    qed
  qed
qed

lemma set_set_insert: "set (set_insert x xs) = insert x (set xs)"
  by (simp add: set_insert_def set_insort_key insert_absorb)

lemma sorted_set_insert: "sorted xs \<Longrightarrow> sorted (set_insert x xs)"
  by (simp add: set_insert_def sorted_insort)

lemma distinct_set_insert: "distinct xs \<Longrightarrow> distinct (set_insert x xs)"
  by (simp add: set_insert_def distinct_insort)


lemma subver_loop_ordered:
  "sorted acc \<Longrightarrow> distinct acc \<Longrightarrow>
   sorted (subver_loop s iPos acc) \<and> distinct (subver_loop s iPos acc)"
proof (induction s iPos acc rule: subver_loop.induct)
  case (1 s iPos subvers)
  show ?case
  proof (cases "find_char s CHR ''/'' iPos")
    case None
    with "1.prems" show ?thesis by (subst (1 2) subver_loop.simps) simp
  next
    case (Some found)
    from "1.prems" have "sorted (set_insert (substr s (iPos - 1) (Suc found - (iPos - 1))) subvers)"
      and "distinct (set_insert (substr s (iPos - 1) (Suc found - (iPos - 1))) subvers)"
      by (simp_all add: sorted_set_insert distinct_set_insert)
    from "1.IH" [OF Some refl refl this] Some show ?thesis
      by (subst (1 2) subver_loop.simps) (simp add: Let_def)
  qed
qed

lemma subver_loop_set:
  assumes "0 < iPos" and "s ! (iPos - 1) = CHR ''/''"
  shows "set (subver_loop s iPos acc) =
           set acc \<union> {substr s p (Suc q - p) | p q. consecutive_slashes s p q \<and> iPos - 1 \<le> p}"
  using assms
proof (induction s iPos acc rule: subver_loop.induct)
  case (1 s iPos subvers)
  show ?case
  proof (cases "find_char s CHR ''/'' iPos")
    case None
    then have none: "\<forall>k. iPos \<le> k \<and> k < length s \<longrightarrow> s ! k \<noteq> CHR ''/''"
      by (simp add: find_char_None)
    have "\<not> (consecutive_slashes s p q \<and> iPos - 1 \<le> p)" for p q
    proof
      assume a: "consecutive_slashes s p q \<and> iPos - 1 \<le> p"
      then have "p < q" "q < length s" "s ! q = CHR ''/''"
        by (simp_all add: consecutive_slashes_def)
      moreover from a have "iPos - 1 \<le> p" by simp
      with \<open>p < q\<close> "1.prems"(1) have "iPos \<le> q" by arith
      ultimately show False using none by simp
    qed
    then have u: "set subvers \<union>
        {substr s p (Suc q - p) | p q. consecutive_slashes s p q \<and> iPos - 1 \<le> p} = set subvers"
      by blast
    have "subver_loop s iPos subvers = subvers"
      by (subst subver_loop.simps) (simp add: None)
    then show ?thesis
      by (simp only: u)
  next
    case (Some found)
    then have f: "iPos \<le> found" "found < length s" "s ! found = CHR ''/''"
      "\<forall>k. iPos \<le> k \<and> k < found \<longrightarrow> s ! k \<noteq> CHR ''/''"
      by (simp_all add: find_char_Some)
    have first: "consecutive_slashes s (iPos - 1) found"
      unfolding consecutive_slashes_def using f "1.prems" by auto
    have split: "consecutive_slashes s p q \<and> iPos - 1 \<le> p \<longleftrightarrow>
                 (p = iPos - 1 \<and> q = found) \<or> (consecutive_slashes s p q \<and> found \<le> p)" for p q
    proof
      assume a: "consecutive_slashes s p q \<and> iPos - 1 \<le> p"
      then have c: "p < q" "q < length s" "s ! p = CHR ''/''" "s ! q = CHR ''/''"
        and between: "\<forall>k. p < k \<and> k < q \<longrightarrow> s ! k \<noteq> CHR ''/''"
        and low: "iPos - 1 \<le> p"
        by (simp_all add: consecutive_slashes_def)
      show "(p = iPos - 1 \<and> q = found) \<or> (consecutive_slashes s p q \<and> found \<le> p)"
      proof (cases "p = iPos - 1")
        case True
        with c(1) "1.prems"(1) have "iPos \<le> q" by arith
        have "\<not> q < found" using f(4) c(4) \<open>iPos \<le> q\<close> by auto
        moreover have "\<not> found < q"
        proof
          assume "found < q"
          moreover from True f(1) "1.prems"(1) have "p < found" by arith
          ultimately have "s ! found \<noteq> CHR ''/''" using between by simp
          with f(3) show False by simp
        qed
        ultimately have "q = found" by simp
        with True show ?thesis by simp
      next
        case False
        with low have "iPos \<le> p" by arith
        have "\<not> p < found" using f(4) c(3) \<open>iPos \<le> p\<close> by auto
        then have "found \<le> p" by simp
        with a show ?thesis by simp
      qed
    next
      assume "(p = iPos - 1 \<and> q = found) \<or> (consecutive_slashes s p q \<and> found \<le> p)"
      then show "consecutive_slashes s p q \<and> iPos - 1 \<le> p"
        using first f(1) by (auto simp: consecutive_slashes_def)
    qed
    have sets: "{substr s p (Suc q - p) | p q. consecutive_slashes s p q \<and> iPos - 1 \<le> p} =
          insert (substr s (iPos - 1) (Suc found - (iPos - 1)))
            {substr s p (Suc q - p) | p q. consecutive_slashes s p q \<and> found \<le> p}"
      unfolding split by blast
    have ih: "set (subver_loop s (Suc found)
                 (set_insert (substr s (iPos - 1) (Suc found - (iPos - 1))) subvers)) =
              set (set_insert (substr s (iPos - 1) (Suc found - (iPos - 1))) subvers) \<union>
              {substr s p (Suc q - p) | p q. consecutive_slashes s p q \<and> found \<le> p}"
      using "1.IH" [OF Some refl refl] f(3) by simp
    have "subver_loop s iPos subvers =
            subver_loop s (Suc found)
              (set_insert (substr s (iPos - 1) (Suc found - (iPos - 1))) subvers)"
      by (subst subver_loop.simps) (simp add: Some Let_def)
    with sets ih show ?thesis
      by (simp only: set_set_insert Un_insert_left Un_insert_right)
  qed
qed


subsection \<open>sendalert\<close>

lemma build_alert_subvers:
  "build_alert e params = Inr alert \<Longrightarrow> params ! 4 = VStr s \<Longrightarrow>
   parse_subvers s = Inr (setSubVer alert)"
  by (auto simp: build_alert_def bind_err_def get_str_def Let_def split: sum.splits if_splits)

lemma build_alert_bad_subvers:
  "params ! 4 = VStr s \<Longrightarrow> parse_subvers s = Inl err \<Longrightarrow> \<exists>err'. build_alert e params = Inl err'"
  by (auto simp: build_alert_def bind_err_def get_str_def Let_def split: sum.splits if_splits)

lemma sendalert_build_error:
  "build_alert e params = Inl err \<Longrightarrow> \<exists>err'. sendalert e st params fHelp = (Inl err', st)"
  by (simp add: sendalert_def)

lemma optional_int:
  "(i < length params \<longrightarrow> (\<exists>n. params ! i = VInt n)) \<Longrightarrow>
   \<exists>c. (if length params > i then get_int (params ! i) else Inr d) = Inr c"
  by (auto simp: get_int_def)

lemma delimited_Nil: "delimited [] = {}"
  by (simp add: delimited_def consecutive_slashes_def)

lemma parse_subvers_framed:
  assumes "s = [] \<or> s ! 0 = CHR ''/'' \<and> s ! (length s - 1) = CHR ''/''"
  shows "\<exists>subvers. parse_subvers s = Inr subvers \<and> set subvers = delimited s
           \<and> sorted subvers \<and> distinct subvers"
proof (cases "s = []")
  case True
  then show ?thesis by (simp add: parse_subvers_def delimited_Nil)
next
  case False
  with assms have framed: "s ! 0 = CHR ''/''" "s ! (length s - 1) = CHR ''/''" by simp_all
  with False have p: "parse_subvers s = Inr (subver_loop s 1 [])"
    by (simp add: parse_subvers_def)
  from framed have "s ! (1 - 1) = CHR ''/''" by simp
  from subver_loop_set [OF _ this, of "[]"]
  have "set (subver_loop s 1 []) = delimited s"
    by (simp add: delimited_def)
  moreover have "sorted (subver_loop s 1 []) \<and> distinct (subver_loop s 1 [])"
    by (rule subver_loop_ordered) simp_all
  ultimately show ?thesis using p by simp
qed

lemma build_alert_typed:
  assumes "params ! 0 = VStr status" "params ! 2 = VInt minver" "params ! 3 = VInt maxver"
    and "params ! 4 = VStr s" "params ! 5 = VInt priority" "params ! 6 = VInt alertid"
    and opt: "\<forall>i. 7 \<le> i \<and> i \<le> 9 \<and> i < length params \<longrightarrow> (\<exists>n. params ! i = VInt n)"
    and p: "parse_subvers s = Inr subvers"
  shows "\<exists>alert. build_alert e params = Inr alert \<and> setSubVer alert = subvers"
proof -
  from opt have "9 < length params \<longrightarrow> (\<exists>n. params ! 9 = VInt n)"
    and "7 < length params \<longrightarrow> (\<exists>n. params ! 7 = VInt n)"
    and "8 < length params \<longrightarrow> (\<exists>n. params ! 8 = VInt n)"
    by simp_all
  then obtain c9 c7 c8
    where "(if length params > 9 then get_int (params ! 9) else Inr (nCancel CAlert_null)) = Inr c9"
      and "(if length params > 7 then get_int (params ! 7) else Inr 365) = Inr c7"
      and "(if length params > 8 then get_int (params ! 8) else Inr 365) = Inr c8"
    using optional_int [of 9 params "nCancel CAlert_null"] optional_int [of 7 params 365]
      optional_int [of 8 params 365]
    by blast
  with assms(1-6) p show ?thesis
    by (simp add: build_alert_def bind_err_def get_str_def get_int_def Let_def)
qed

lemma sendalert_hands_over:
  assumes "\<not> fHelp" "7 \<le> length params" "build_alert e params = Inr alert"
    and "params ! 1 = VStr hex" "load_key e (ParseHex e hex) = Inr key"
    and "CKey_Sign e key (Hash e (vchMsg alert)) = Some sig"
  shows "\<exists>rest. calls (snd (sendalert e st params fHelp)) =
           calls st @ CallProcessAlert (alert\<lparr>vchSig := sig\<rparr>) # rest"
  using assms
  by (simp add: sendalert_def get_str_def Let_def split: prod.splits)

text \<open>
  C10. For a non-empty subversion parameter of \<^verbatim>\<open>sendalert\<close>: when it does not both
  begin and end with a slash the parse throws, the alert is not built and the call returns
  that error with the state as it was; when it does, and the other parameters have their
  types, the alert is built and its set holds exactly the substrings from each slash to the
  next one, both slashes included (\<^verbatim>\<open>/A/B/\<close> gives \<^verbatim>\<open>/A/\<close> and \<^verbatim>\<open>/B/\<close>), in ascending
  order without duplicates. An empty parameter leaves the set of the built alert empty. The
  set of any built alert is the parse of the fifth parameter, and the alert handed to the
  store is the built alert with its signature.
\<close>

theorem parse_subvers_spec:
  "(s \<noteq> [] \<and> \<not> (s ! 0 = CHR ''/'' \<and> s ! (length s - 1) = CHR ''/'') \<longrightarrow>
      parse_subvers s =
        Inl (RuntimeError
               (''Invalid client subversion(s) string, see BIP14 for specifications'' @ [CHR 0x0A]))
    \<and> (params ! 4 = VStr s \<longrightarrow>
          (\<exists>err. build_alert e params = Inl err)
        \<and> (\<exists>err. sendalert e st params fHelp = (Inl err, st))))
   \<and> (s \<noteq> [] \<and> s ! 0 = CHR ''/'' \<and> s ! (length s - 1) = CHR ''/'' \<longrightarrow>
        (\<exists>subvers. parse_subvers s = Inr subvers \<and> set subvers = delimited s
                  \<and> sorted subvers \<and> distinct subvers))
   \<and> parse_subvers [] = Inr []
   \<and> parse_subvers ''/A/B/'' = Inr [''/A/'', ''/B/'']
   \<and> (build_alert e params = Inr alert \<and> params ! 4 = VStr s \<longrightarrow>
        parse_subvers s = Inr (setSubVer alert))
   \<and> (params ! 0 = VStr status \<and> params ! 2 = VInt minver \<and> params ! 3 = VInt maxver
        \<and> params ! 4 = VStr s \<and> params ! 5 = VInt priority \<and> params ! 6 = VInt alertid
        \<and> (\<forall>i. 7 \<le> i \<and> i \<le> 9 \<and> i < length params \<longrightarrow> (\<exists>n. params ! i = VInt n))
        \<and> (s = [] \<or> s ! 0 = CHR ''/'' \<and> s ! (length s - 1) = CHR ''/'') \<longrightarrow>
        (\<exists>built. build_alert e params = Inr built \<and> set (setSubVer built) = delimited s
                \<and> sorted (setSubVer built) \<and> distinct (setSubVer built)))
   \<and> (\<not> fHelp \<and> 7 \<le> length params \<and> build_alert e params = Inr alert
        \<and> params ! 1 = VStr hex \<and> load_key e (ParseHex e hex) = Inr key
        \<and> CKey_Sign e key (Hash e (vchMsg alert)) = Some sig \<longrightarrow>
        (\<exists>rest. calls (snd (sendalert e st params fHelp)) =
                  calls st @ CallProcessAlert (alert\<lparr>vchSig := sig\<rparr>) # rest))"
proof -
  let ?msg = "''Invalid client subversion(s) string, see BIP14 for specifications'' @ [CHR 0x0A]"
  have bad: "parse_subvers s = Inl (RuntimeError ?msg)
      \<and> (params ! 4 = VStr s \<longrightarrow>
          (\<exists>err. build_alert e params = Inl err)
        \<and> (\<exists>err. sendalert e st params fHelp = (Inl err, st)))"
    if "s \<noteq> [] \<and> \<not> (s ! 0 = CHR ''/'' \<and> s ! (length s - 1) = CHR ''/'')"
  proof -
    from that have p: "parse_subvers s = Inl (RuntimeError ?msg)"
      by (simp add: parse_subvers_def)
    show ?thesis
    proof (intro conjI impI)
      show "parse_subvers s = Inl (RuntimeError ?msg)" by (rule p)
    next
      assume "params ! 4 = VStr s"
      from build_alert_bad_subvers [OF this p]
      show "\<exists>err. build_alert e params = Inl err" .
      then obtain err where "build_alert e params = Inl err" ..
      from sendalert_build_error [OF this]
      show "\<exists>err. sendalert e st params fHelp = (Inl err, st)" .
    qed
  qed
  have good: "\<exists>subvers. parse_subvers s = Inr subvers \<and> set subvers = delimited s
                  \<and> sorted subvers \<and> distinct subvers"
    if "s \<noteq> [] \<and> s ! 0 = CHR ''/'' \<and> s ! (length s - 1) = CHR ''/''"
    using that by (intro parse_subvers_framed) simp
  have none: "parse_subvers [] = Inr []"
    by (simp add: parse_subvers_def)
  have ex: "parse_subvers ''/A/B/'' = Inr [''/A/'', ''/B/'']"
    by (simp add: parse_subvers_def subver_loop.simps find_char.simps set_insert_def substr_def)
  have built: "build_alert e params = Inr alert \<and> params ! 4 = VStr s \<longrightarrow>
        parse_subvers s = Inr (setSubVer alert)"
    using build_alert_subvers by blast
  have makes: "\<exists>built. build_alert e params = Inr built \<and> set (setSubVer built) = delimited s
                \<and> sorted (setSubVer built) \<and> distinct (setSubVer built)"
    if t: "params ! 0 = VStr status \<and> params ! 2 = VInt minver \<and> params ! 3 = VInt maxver
        \<and> params ! 4 = VStr s \<and> params ! 5 = VInt priority \<and> params ! 6 = VInt alertid
        \<and> (\<forall>i. 7 \<le> i \<and> i \<le> 9 \<and> i < length params \<longrightarrow> (\<exists>n. params ! i = VInt n))
        \<and> (s = [] \<or> s ! 0 = CHR ''/'' \<and> s ! (length s - 1) = CHR ''/'')"
  proof -
    from t have "s = [] \<or> s ! 0 = CHR ''/'' \<and> s ! (length s - 1) = CHR ''/''" by simp
    from parse_subvers_framed [OF this] obtain subvers
      where p: "parse_subvers s = Inr subvers" and sv: "set subvers = delimited s"
        "sorted subvers" "distinct subvers"
      by blast
    from t have "params ! 0 = VStr status" "params ! 2 = VInt minver" "params ! 3 = VInt maxver"
      "params ! 4 = VStr s" "params ! 5 = VInt priority" "params ! 6 = VInt alertid"
      "\<forall>i. 7 \<le> i \<and> i \<le> 9 \<and> i < length params \<longrightarrow> (\<exists>n. params ! i = VInt n)"
      by simp_all
    from build_alert_typed [OF this p, of e] sv show ?thesis by auto
  qed
  have hands: "\<exists>rest. calls (snd (sendalert e st params fHelp)) =
                  calls st @ CallProcessAlert (alert\<lparr>vchSig := sig\<rparr>) # rest"
    if "\<not> fHelp \<and> 7 \<le> length params \<and> build_alert e params = Inr alert
        \<and> params ! 1 = VStr hex \<and> load_key e (ParseHex e hex) = Inr key
        \<and> CKey_Sign e key (Hash e (vchMsg alert)) = Some sig"
  proof -
    from that have "\<not> fHelp" "7 \<le> length params" "build_alert e params = Inr alert"
      "params ! 1 = VStr hex" "load_key e (ParseHex e hex) = Inr key"
      "CKey_Sign e key (Hash e (vchMsg alert)) = Some sig"
      by simp_all
    then show ?thesis by (rule sendalert_hands_over)
  qed
  from bad good none ex built makes hands show ?thesis by blast
qed

theorem parse_subvers_spec_witness:
  "parse_subvers ''/A/B/'' = Inr [''/A/'', ''/B/'']
   \<and> delimited ''/A/B/'' = {''/A/'', ''/B/''}
   \<and> (case build_alert example_env
             [VStr ''upgrade required'', VStr ''00'', VInt 0, VInt 999999, VStr ''/A/B/'',
              VInt 100, VInt 7] of
         Inl err \<Rightarrow> None
       | Inr built \<Rightarrow> Some (setSubVer built)) = Some [''/A/'', ''/B/'']
   \<and> parse_subvers ''A/B'' =
       Inl (RuntimeError
              (''Invalid client subversion(s) string, see BIP14 for specifications'' @ [CHR 0x0A]))
   \<and> sendalert example_env example_state
        [VStr ''upgrade required'', VStr ''00'', VInt 0, VInt 999999, VStr ''A/B'', VInt 100, VInt 7]
        False =
       (Inl (RuntimeError
              (''Invalid client subversion(s) string, see BIP14 for specifications'' @ [CHR 0x0A])),
        example_state)"
proof -
  let ?ps = "[VStr ''upgrade required'', VStr ''00'', VInt 0, VInt 999999, VStr ''/A/B/'',
              VInt 100, VInt 7]"
  have shape: "''/A/B/'' \<noteq> [] \<and> ''/A/B/'' ! 0 = CHR ''/'' \<and> ''/A/B/'' ! (length ''/A/B/'' - 1) = CHR ''/''"
    by simp
  have run: "parse_subvers ''/A/B/'' = Inr [''/A/'', ''/B/'']"
    by (rule parse_subvers_spec [THEN conjunct2, THEN conjunct2, THEN conjunct2, THEN conjunct1])
  from parse_subvers_spec [where s = "''/A/B/''", THEN conjunct2, THEN conjunct1, THEN mp, OF shape]
  obtain subvers where "parse_subvers ''/A/B/'' = Inr subvers" "set subvers = delimited ''/A/B/''"
    by blast
  with run have del: "delimited ''/A/B/'' = {''/A/'', ''/B/''}"
    by auto
  have typed: "?ps ! 0 = VStr ''upgrade required'' \<and> ?ps ! 2 = VInt 0 \<and> ?ps ! 3 = VInt 999999
        \<and> ?ps ! 4 = VStr ''/A/B/'' \<and> ?ps ! 5 = VInt 100 \<and> ?ps ! 6 = VInt 7
        \<and> (\<forall>i. 7 \<le> i \<and> i \<le> 9 \<and> i < length ?ps \<longrightarrow> (\<exists>n. ?ps ! i = VInt n))
        \<and> (''/A/B/'' = [] \<or> ''/A/B/'' ! 0 = CHR ''/'' \<and> ''/A/B/'' ! (length ''/A/B/'' - 1) = CHR ''/'')"
    by simp
  from parse_subvers_spec [where s = "''/A/B/''" and params = ?ps and e = example_env
      and status = "''upgrade required''" and minver = 0 and maxver = 999999
      and priority = 100 and alertid = 7,
      THEN conjunct2, THEN conjunct2, THEN conjunct2, THEN conjunct2, THEN conjunct2,
      THEN conjunct1, THEN mp, OF typed]
  obtain built where b: "build_alert example_env ?ps = Inr built"
    and sv: "set (setSubVer built) = delimited ''/A/B/''"
    by blast
  have four: "?ps ! 4 = VStr ''/A/B/''" by simp
  from parse_subvers_spec [where s = "''/A/B/''" and params = ?ps and e = example_env
      and alert = built,
      THEN conjunct2, THEN conjunct2, THEN conjunct2, THEN conjunct2, THEN conjunct1,
      THEN mp, OF conjI, OF b four]
  have "parse_subvers ''/A/B/'' = Inr (setSubVer built)" .
  with run have "setSubVer built = [''/A/'', ''/B/'']" by simp
  with b have made: "(case build_alert example_env ?ps of
         Inl err \<Rightarrow> None
       | Inr built \<Rightarrow> Some (setSubVer built)) = Some [''/A/'', ''/B/'']"
    by simp
  have wrong: "''A/B'' \<noteq> [] \<and> \<not> (''A/B'' ! 0 = CHR ''/'' \<and> ''A/B'' ! (length ''A/B'' - 1) = CHR ''/'')"
    by simp
  from parse_subvers_spec [where s = "''A/B''", THEN conjunct1, THEN mp, OF wrong, THEN conjunct1]
  have refused: "parse_subvers ''A/B'' =
       Inl (RuntimeError
              (''Invalid client subversion(s) string, see BIP14 for specifications'' @ [CHR 0x0A]))" .
  have call: "sendalert example_env example_state
        [VStr ''upgrade required'', VStr ''00'', VInt 0, VInt 999999, VStr ''A/B'', VInt 100, VInt 7]
        False =
       (Inl (RuntimeError
              (''Invalid client subversion(s) string, see BIP14 for specifications'' @ [CHR 0x0A])),
        example_state)"
    by (simp add: sendalert_def build_alert_def bind_err_def get_str_def get_int_def refused)
  from run del made refused call show ?thesis by simp
qed

text \<open>A run of \<^verbatim>\<open>sendalert\<close> that succeeds: the alert for \<^verbatim>\<open>/A/B/\<close> is signed with a
  valid secret, accepted by the store and relayed to both peers.\<close>

lemma sendalert_example_run:
  "fst (sendalert example_env example_state
          [VStr ''upgrade required'', VStr (replicate 64 CHR ''1''), VInt 0, VInt 999999,
           VStr ''/A/B/'', VInt 100, VInt 7] False) =
     Inr (VObject
       [(''AlertID'', VInt 7), (''Priority'', VInt 100), (''Version'', VInt 70009),
        (''MinVer'', VInt 0), (''MaxVer'', VInt 999999), (''SubVer'', VStr ''/A/ or /B/''),
        (''RelayUntil'', VInt 31536200), (''Expiration'', VInt 31536200),
        (''StatusBar'', VStr ''upgrade required'')])
   \<and> map is_relay (calls (snd (sendalert example_env example_state
          [VStr ''upgrade required'', VStr (replicate 64 CHR ''1''), VInt 0, VInt 999999,
           VStr ''/A/B/'', VInt 100, VInt 7] False))) = [False, True, True]"
  by (simp add: sendalert_def build_alert_def bind_err_def get_str_def get_int_def
        parse_subvers_def subver_loop.simps find_char.simps set_insert_def substr_def
        load_key_def CKey_Set_def CKey_Sign_def example_env_def example_state_def
        CAlert_null_def wrap64_def alert_result_def SingleAlertSubVersionsString_def
        peer_out_def peer_in_def Let_def)

lemma sendalert_calls:
  "calls (snd (sendalert e st params fHelp)) = calls st @ CallProcessAlert handed # rest \<Longrightarrow>
   \<exists>unsignedAlert hex key sig.
     params ! 1 = VStr hex \<and> load_key e (ParseHex e hex) = Inr key
   \<and> CKey_Sign e key (Hash e (vchMsg unsignedAlert)) = Some sig
   \<and> handed = unsignedAlert\<lparr>vchSig := sig\<rparr>"
  by (auto simp: sendalert_def get_str_def Let_def
        split: sum.splits option.splits prod.splits if_splits Value.splits)

text \<open>
  C4. When the private-key parameter of \<^verbatim>\<open>sendalert\<close> is not valid signing key material,
  the call returns an error and the state is the one it started from: nothing was handed to
  the alert store and nothing was relayed. With the alert built, the error is the failed
  import for key material of a length other than 32 bytes; for 32 bytes that are no valid
  secret it is what \<^verbatim>\<open>GetPrivKey\<close> throws on the key, if it throws, and the failed
  signature otherwise. Whenever the call returns an error, for signing, for processing or
  for any other reason, the peers are as they were and no relay call was made. An alert that
  is handed to the store carries a signature that the signing primitive made with valid key
  material.
\<close>

theorem sendalert_invalid_key:
  "(params ! 1 = VStr hex \<and> \<not> valid_key_material e (ParseHex e hex) \<longrightarrow>
      (\<exists>err. sendalert e st params fHelp = (Inl err, st)))
   \<and> (\<not> fHelp \<and> 7 \<le> length params \<and> build_alert e params = Inr alert
        \<and> params ! 1 = VStr hex \<and> \<not> valid_key_material e (ParseHex e hex) \<longrightarrow>
      sendalert e st params fHelp =
        (Inl (if length (ParseHex e hex) = 32
              then (case GetPrivKey e (CKey_Set e (ParseHex e hex)) of
                      Inl thrown \<Rightarrow> thrown
                    | Inr nPK \<Rightarrow>
                        RuntimeError (''Unable to sign alert, check private key?'' @ [CHR 0x0A]))
              else RuntimeError
                     (''Unable to verify alert Private key, check private key?'' @ [CHR 0x0A])),
         st))
   \<and> (fst (sendalert e st params fHelp) = Inl err \<longrightarrow>
        vNodes (snd (sendalert e st params fHelp)) = vNodes st
      \<and> filter is_relay (calls (snd (sendalert e st params fHelp))) = filter is_relay (calls st))
   \<and> (calls (snd (sendalert e st params fHelp)) = calls st @ CallProcessAlert handed # rest \<longrightarrow>
        (\<exists>hex' sec. params ! 1 = VStr hex' \<and> valid_key_material e (ParseHex e hex')
           \<and> EcdsaSign e sec (Hash e (vchMsg handed)) = Some (vchSig handed)))"
proof -
  have key: "case load_key e vch of
               Inl err \<Rightarrow>
                 err = (if length vch = 32
                        then (case GetPrivKey e (CKey_Set e vch) of
                                Inl thrown \<Rightarrow> thrown
                              | Inr nPK \<Rightarrow> RuntimeError
                                  (''Unable to sign alert, check private key?'' @ [CHR 0x0A]))
                        else RuntimeError
                          (''Unable to verify alert Private key, check private key?'' @ [CHR 0x0A]))
             | Inr key \<Rightarrow> length vch = 32 \<and> CKey_Sign e key h = None
                 \<and> (\<exists>nPK. GetPrivKey e (CKey_Set e vch) = Inr nPK)"
    if "\<not> valid_key_material e vch" for vch h
    using that
    by (auto simp: load_key_def valid_key_material_def CKey_Set_def CKey_SetPrivKey_def
          CKey_Sign_def Let_def split: option.splits if_splits sum.splits)
  have a: "\<exists>err. sendalert e st params fHelp = (Inl err, st)"
    if "params ! 1 = VStr hex \<and> \<not> valid_key_material e (ParseHex e hex)"
    using that key [of "ParseHex e hex"]
    by (auto simp: sendalert_def get_str_def split: sum.splits option.splits)
  have b: "sendalert e st params fHelp =
        (Inl (if length (ParseHex e hex) = 32
              then (case GetPrivKey e (CKey_Set e (ParseHex e hex)) of
                      Inl thrown \<Rightarrow> thrown
                    | Inr nPK \<Rightarrow>
                        RuntimeError (''Unable to sign alert, check private key?'' @ [CHR 0x0A]))
              else RuntimeError
                     (''Unable to verify alert Private key, check private key?'' @ [CHR 0x0A])),
         st)"
    if "\<not> fHelp \<and> 7 \<le> length params \<and> build_alert e params = Inr alert
        \<and> params ! 1 = VStr hex \<and> \<not> valid_key_material e (ParseHex e hex)"
    using that key [of "ParseHex e hex" "Hash e (vchMsg alert)"]
    by (auto simp: sendalert_def get_str_def split: sum.splits option.splits)
  have c: "vNodes (snd (sendalert e st params fHelp)) = vNodes st
      \<and> filter is_relay (calls (snd (sendalert e st params fHelp))) = filter is_relay (calls st)"
    if "fst (sendalert e st params fHelp) = Inl err"
    using that
    by (auto simp: sendalert_def Let_def split: sum.splits option.splits prod.splits if_splits)
  have d: "\<exists>hex' sec. params ! 1 = VStr hex' \<and> valid_key_material e (ParseHex e hex')
           \<and> EcdsaSign e sec (Hash e (vchMsg handed)) = Some (vchSig handed)"
    if h: "calls (snd (sendalert e st params fHelp)) = calls st @ CallProcessAlert handed # rest"
  proof -
    from sendalert_calls [OF h] obtain unsignedAlert hex' key sig
      where u: "params ! 1 = VStr hex'" "load_key e (ParseHex e hex') = Inr key"
        "CKey_Sign e key (Hash e (vchMsg unsignedAlert)) = Some sig"
        "handed = unsignedAlert\<lparr>vchSig := sig\<rparr>"
      by blast
    from u(3) have s: "fValid key" "EcdsaSign e (secret key) (Hash e (vchMsg unsignedAlert)) = Some sig"
      by (simp_all add: CKey_Sign_def split: if_splits)
    from u(2) s(1) have "valid_key_material e (ParseHex e hex')"
      by (auto simp: load_key_def valid_key_material_def CKey_Set_def CKey_SetPrivKey_def Let_def
            split: if_splits option.splits sum.splits)
    moreover from s(2) u(4) have "EcdsaSign e (secret key) (Hash e (vchMsg handed)) = Some (vchSig handed)"
      by simp
    ultimately show ?thesis using u(1) by blast
  qed
  from a b c d show ?thesis by blast
qed

theorem sendalert_invalid_key_witness:
  "\<not> valid_key_material example_env (ParseHex example_env ''00'')
   \<and> sendalert example_env example_state
        [VStr ''upgrade required'', VStr ''00'', VInt 0, VInt 999999, VStr [], VInt 100, VInt 7]
        False =
       (Inl (RuntimeError (''Unable to verify alert Private key, check private key?'' @ [CHR 0x0A])),
        example_state)
   \<and> length (ParseHex example_env (replicate 64 CHR ''0'')) = 32
   \<and> \<not> valid_key_material example_env (ParseHex example_env (replicate 64 CHR ''0''))
   \<and> sendalert example_env example_state
        [VStr ''upgrade required'', VStr (replicate 64 CHR ''0''), VInt 0, VInt 999999, VStr [],
         VInt 100, VInt 7]
        False =
       (Inl (RuntimeError (''Unable to sign alert, check private key?'' @ [CHR 0x0A])),
        example_state)
   \<and> calls example_state = []"
proof -
  let ?short = "[VStr ''upgrade required'', VStr ''00'', VInt 0, VInt 999999, VStr [], VInt 100, VInt 7]"
  let ?zero = "[VStr ''upgrade required'', VStr (replicate 64 CHR ''0''), VInt 0, VInt 999999,
                VStr [], VInt 100, VInt 7]"
  have bad: "\<not> valid_key_material example_env (ParseHex example_env ''00'')"
    by (simp add: valid_key_material_def example_env_def)
  have len: "length (ParseHex example_env ''00'') \<noteq> 32"
    by (simp add: example_env_def)
  have zlen: "length (ParseHex example_env (replicate 64 CHR ''0'')) = 32"
    by (simp add: example_env_def)
  have zbad: "\<not> valid_key_material example_env (ParseHex example_env (replicate 64 CHR ''0''))"
    by (simp add: valid_key_material_def example_env_def)
  have returns: "GetPrivKey example_env key = Inr (secret key)" for key
    by (simp add: example_env_def)
  have "\<exists>alert. build_alert example_env ?short = Inr alert"
    by (simp add: build_alert_def bind_err_def get_str_def get_int_def parse_subvers_def Let_def)
  then obtain alert where built: "build_alert example_env ?short = Inr alert" ..
  have "\<exists>alert. build_alert example_env ?zero = Inr alert"
    by (simp add: build_alert_def bind_err_def get_str_def get_int_def parse_subvers_def Let_def)
  then obtain zalert where zbuilt: "build_alert example_env ?zero = Inr zalert" ..
  from sendalert_invalid_key [where params = ?short and hex = "''00''" and e = example_env
      and st = example_state and fHelp = False and alert = alert] bad len built
  have first: "sendalert example_env example_state ?short False =
       (Inl (RuntimeError (''Unable to verify alert Private key, check private key?'' @ [CHR 0x0A])),
        example_state)"
    by simp
  from sendalert_invalid_key [where params = ?zero and hex = "replicate 64 CHR ''0''"
      and e = example_env and st = example_state and fHelp = False and alert = zalert]
    zbad zlen zbuilt returns
  have second: "sendalert example_env example_state ?zero False =
       (Inl (RuntimeError (''Unable to sign alert, check private key?'' @ [CHR 0x0A])),
        example_state)"
    by simp
  from bad first zlen zbad second show ?thesis
    by (simp add: example_state_def)
qed

end
